theory Spec2Isabelle
  imports Main "HOL-Library.Signed_Division"
begin

section \<open>The JavaScript runtime, as far as the utility layer uses it\<close>

text \<open>
  The utility layer of the Cronos node (\<^verbatim>\<open>nodes/Cronos/utils/index.ts\<close>) and the utility
  actions (\<^verbatim>\<open>encodeFunction\<close>, \<^verbatim>\<open>decodeData\<close>) are pure functions over strings,
  Numbers and BigInts. A string is a \<^typ>\<open>string\<close>: for the hex and decimal texts handled
  here every character is ASCII, so a \<^typ>\<open>char\<close> is a UTF-16 code unit as well as a byte.
  A thrown exception is the left summand of the result.
\<close>

datatype js_error = SyntaxError | RangeError | TypeError | Error string

text \<open>
  A Number is modelled by the integral values, the infinities and NaN; the functions below
  never produce a fraction. A finite Number beyond \<open>2^53\<close> is a binary64 value, see
  \<open>round_binary64\<close>.
\<close>

datatype js_number = Finite int | PosInfinity | NegInfinity | NaN

datatype js_value = JString string | JNumber js_number | JBigInt int | JBool bool

subsection \<open>Characters\<close>

definition digit_char :: "nat \<Rightarrow> char" where
  "digit_char v = (if v < 16 then ''0123456789abcdef'' ! v else CHR ''?'')"

definition digit_val :: "char \<Rightarrow> nat option" where
  "digit_val c = (let n = (of_char c :: nat) in
      if 48 \<le> n \<and> n \<le> 57 then Some (n - 48)
      else if 97 \<le> n \<and> n \<le> 102 then Some (n - 87)
      else if 65 \<le> n \<and> n \<le> 70 then Some (n - 55)
      else None)"

definition is_digit :: "nat \<Rightarrow> char \<Rightarrow> bool" where
  "is_digit r c = (case digit_val c of Some v \<Rightarrow> v < r | None \<Rightarrow> False)"

text \<open>White space and line terminators, in ASCII: TAB, LF, VT, FF, CR and the space.\<close>

definition is_space :: "char \<Rightarrow> bool" where
  "is_space c = (let n = (of_char c :: nat) in (9 \<le> n \<and> n \<le> 13) \<or> n = 32)"

definition to_lower :: "char \<Rightarrow> char" where
  "to_lower c =
     (case map_of (zip ''ABCDEFGHIJKLMNOPQRSTUVWXYZ'' ''abcdefghijklmnopqrstuvwxyz'') c of
        Some l \<Rightarrow> l
      | None \<Rightarrow> c)"

subsection \<open>String methods\<close>

definition toLowerCase :: "string \<Rightarrow> string" where
  "toLowerCase s = map to_lower s"

definition startsWith :: "string \<Rightarrow> string \<Rightarrow> bool" where
  "startsWith s p = (take (length p) s = p)"

text \<open>\<^verbatim>\<open>s.replace(p, r)\<close> with a string pattern: the first occurrence only.\<close>

fun replace_first :: "string \<Rightarrow> string \<Rightarrow> string \<Rightarrow> string" where
  "replace_first p r [] = (if p = [] then r else [])"
| "replace_first p r (c # cs) =
     (if startsWith (c # cs) p then r @ drop (length p) (c # cs)
      else c # replace_first p r cs)"

definition padStart :: "nat \<Rightarrow> char \<Rightarrow> string \<Rightarrow> string" where
  "padStart n c s = replicate (n - length s) c @ s"

definition padEnd :: "nat \<Rightarrow> char \<Rightarrow> string \<Rightarrow> string" where
  "padEnd n c s = s @ replicate (n - length s) c"

text \<open>
  \<^verbatim>\<open>s.slice(a, b)\<close>: a negative index counts from the end, and both are clamped to the
  string.
\<close>

definition slice :: "int \<Rightarrow> int \<Rightarrow> string \<Rightarrow> string" where
  "slice a b s =
     (let n = int (length s);
          from = (if a < 0 then max (n + a) 0 else min a n);
          to = (if b < 0 then max (n + b) 0 else min b n)
      in take (nat (to - from)) (drop (nat from) s))"

definition slice_from :: "int \<Rightarrow> string \<Rightarrow> string" where
  "slice_from a s = slice a (int (length s)) s"

definition trim :: "string \<Rightarrow> string" where
  "trim s = rev (dropWhile is_space (rev (dropWhile is_space s)))"

subsection \<open>BigInt\<close>

fun parse_digits :: "nat \<Rightarrow> string \<Rightarrow> nat \<Rightarrow> nat option" where
  "parse_digits r [] acc = Some acc"
| "parse_digits r (c # cs) acc =
     (case digit_val c of
        None \<Rightarrow> None
      | Some v \<Rightarrow> if v < r then parse_digits r cs (acc * r + v) else None)"

definition parse_nat :: "nat \<Rightarrow> string \<Rightarrow> nat option" where
  "parse_nat r s = (if s = [] then None else parse_digits r s 0)"

text \<open>
  \<^verbatim>\<open>BigInt(s)\<close> on a string: white space is trimmed, the empty text is zero, a decimal
  literal may carry a sign, a literal with prefix \<^verbatim>\<open>0x\<close>, \<^verbatim>\<open>0o\<close> or \<^verbatim>\<open>0b\<close> may not, and
  anything else is a SyntaxError (\<open>None\<close>).
\<close>

definition StringToBigInt :: "string \<Rightarrow> int option" where
  "StringToBigInt s =
     (let t = trim s in
      if t = [] then Some 0
      else if startsWith t ''0x'' \<or> startsWith t ''0X'' then map_option int (parse_nat 16 (drop 2 t))
      else if startsWith t ''0o'' \<or> startsWith t ''0O'' then map_option int (parse_nat 8 (drop 2 t))
      else if startsWith t ''0b'' \<or> startsWith t ''0B'' then map_option int (parse_nat 2 (drop 2 t))
      else if startsWith t ''-'' then map_option (\<lambda>n. - int n) (parse_nat 10 (drop 1 t))
      else if startsWith t ''+'' then map_option int (parse_nat 10 (drop 1 t))
      else map_option int (parse_nat 10 t))"

text \<open>
  \<^verbatim>\<open>BigInt(v)\<close>: a Number must be integral and finite (RangeError otherwise), a boolean is
  0 or 1.
\<close>

fun BigInt :: "js_value \<Rightarrow> js_error + int" where
  "BigInt (JString s) = (case StringToBigInt s of None \<Rightarrow> Inl SyntaxError | Some i \<Rightarrow> Inr i)"
| "BigInt (JNumber (Finite i)) = Inr i"
| "BigInt (JNumber _) = Inl RangeError"
| "BigInt (JBigInt i) = Inr i"
| "BigInt (JBool b) = Inr (if b then 1 else 0)"

function render_nat :: "nat \<Rightarrow> nat \<Rightarrow> string" where
  "render_nat r n =
     (if r < 2 \<or> n < r then [digit_char n]
      else render_nat r (n div r) @ [digit_char (n mod r)])"
  by pat_completeness auto
termination
  by (relation "measure snd") (simp_all add: div_less_dividend)

declare render_nat.simps [simp del]

text \<open>\<^verbatim>\<open>i.toString(radix)\<close> of a BigInt, for the radices 10 and 16 the code uses.\<close>

definition BigInt_toString :: "nat \<Rightarrow> int \<Rightarrow> string" where
  "BigInt_toString r i =
     (if i < 0 then CHR ''-'' # render_nat r (nat (- i)) else render_nat r (nat i))"

subsection \<open>Numbers\<close>

function bit_length :: "nat \<Rightarrow> nat" where
  "bit_length n = (if n = 0 then 0 else Suc (bit_length (n div 2)))"
  by pat_completeness auto
termination
  by (relation "measure id") simp_all

declare bit_length.simps [simp del]

text \<open>
  The binary64 value nearest to a natural number, ties to the even significand: a number
  of more than 53 bits keeps its 53 leading bits.
\<close>

definition round_binary64 :: "nat \<Rightarrow> nat" where
  "round_binary64 n =
     (let b = bit_length n in
      if b \<le> 53 then n
      else let s = b - 53; q = n div 2 ^ s; r = n mod 2 ^ s; h = 2 ^ (s - 1)
           in (if h < r \<or> (r = h \<and> odd q) then q + 1 else q) * 2 ^ s)"

text \<open>The Number that an exact integral result is rounded to.\<close>

definition to_Number :: "int \<Rightarrow> js_number" where
  "to_Number i =
     (let m = round_binary64 (nat \<bar>i\<bar>) in
      if 2 ^ 1024 \<le> m then (if i < 0 then NegInfinity else PosInfinity)
      else Finite (if i < 0 then - int m else int m))"

text \<open>
  \<^verbatim>\<open>10 ** d\<close> for a non-negative integral \<open>d\<close>. Up to \<open>d = 22\<close> the power \<open>10^d\<close> is a
  binary64 value; from \<open>d = 23\<close> on it is none (\<open>5^d\<close> needs more than 53 bits), so the
  result is not \<open>10^d\<close> whatever the implementation does. ECMAScript leaves the precision of
  \<^verbatim>\<open>**\<close> to the implementation: the model takes the binary64 value nearest to \<open>10^d\<close>,
  which is what V8 returns at \<open>d = 24\<close>, the exponent evaluated below; for some larger
  exponents (\<open>d = 26\<close>) V8 returns the neighbouring binary64 value instead.
\<close>

definition pow10 :: "nat \<Rightarrow> js_number" where
  "pow10 d = to_Number (10 ^ d)"

fun num_add :: "js_number \<Rightarrow> js_number \<Rightarrow> js_number" where
  "num_add (Finite a) (Finite b) = to_Number (a + b)"
| "num_add NaN _ = NaN"
| "num_add _ NaN = NaN"
| "num_add PosInfinity NegInfinity = NaN"
| "num_add NegInfinity PosInfinity = NaN"
| "num_add PosInfinity _ = PosInfinity"
| "num_add NegInfinity _ = NegInfinity"
| "num_add _ b = b"

fun num_neg :: "js_number \<Rightarrow> js_number" where
  "num_neg (Finite a) = Finite (- a)"
| "num_neg PosInfinity = NegInfinity"
| "num_neg NegInfinity = PosInfinity"
| "num_neg NaN = NaN"

text \<open>Multiplication by a finite constant, as in \<^verbatim>\<open>length * 2\<close>.\<close>

fun num_times :: "js_number \<Rightarrow> int \<Rightarrow> js_number" where
  "num_times (Finite a) k = to_Number (a * k)"
| "num_times NaN k = NaN"
| "num_times x k = (if k = 0 then NaN else if 0 < k then x else num_neg x)"

text \<open>
  \<^verbatim>\<open>parseInt(s, 16)\<close>: leading white space, a sign and a \<^verbatim>\<open>0x\<close> prefix are skipped, the
  longest run of hex digits is read, and no digit at all gives NaN.
\<close>

definition parseInt16 :: "string \<Rightarrow> js_number" where
  "parseInt16 s =
     (let t = dropWhile is_space s;
          u = (if startsWith t ''-'' \<or> startsWith t ''+'' then drop 1 t else t);
          v = (if startsWith u ''0x'' \<or> startsWith u ''0X'' then drop 2 u else u)
      in case parse_nat 16 (takeWhile (is_digit 16) v) of
           None \<Rightarrow> NaN
         | Some n \<Rightarrow> to_Number (if startsWith t ''-'' then - int n else int n))"

text \<open>
  A Number used as a position of \<^verbatim>\<open>slice\<close> in a string of length \<open>n\<close>: NaN is 0, and an
  infinity lies beyond either end.
\<close>

fun to_index :: "nat \<Rightarrow> js_number \<Rightarrow> int" where
  "to_index n (Finite i) = i"
| "to_index n PosInfinity = int n"
| "to_index n NegInfinity = - int n"
| "to_index n NaN = 0"

definition slice_num :: "js_number \<Rightarrow> js_number \<Rightarrow> string \<Rightarrow> string" where
  "slice_num a b s = slice (to_index (length s) a) (to_index (length s) b) s"

text \<open>
  \<^verbatim>\<open>v.toString()\<close> and the test \<^verbatim>\<open>v ? .. : ..\<close>. A finite Number is printed as its decimal
  digits, which is JavaScript's text for an integral Number of magnitude below \<open>10^21\<close>
  only: from \<open>10^21\<close> on JavaScript prints exponent notation (\<^verbatim>\<open>1e+21\<close>), which is outside
  this model. Nothing below applies \<open>js_toString\<close> to such a Number.
\<close>

fun js_toString :: "js_value \<Rightarrow> string" where
  "js_toString (JString s) = s"
| "js_toString (JNumber (Finite i)) = BigInt_toString 10 i"
| "js_toString (JNumber PosInfinity) = ''Infinity''"
| "js_toString (JNumber NegInfinity) = ''-Infinity''"
| "js_toString (JNumber NaN) = ''NaN''"
| "js_toString (JBigInt i) = BigInt_toString 10 i"
| "js_toString (JBool b) = (if b then ''true'' else ''false'')"

fun truthy :: "js_value \<Rightarrow> bool" where
  "truthy (JString s) = (s \<noteq> [])"
| "truthy (JNumber (Finite i)) = (i \<noteq> 0)"
| "truthy (JNumber NaN) = False"
| "truthy (JNumber _) = True"
| "truthy (JBigInt i) = (i \<noteq> 0)"
| "truthy (JBool b) = b"

section \<open>Numeric base conversion\<close>

text \<open>
  \<^verbatim>\<open>
  export function hexToDecimal(hex: string): string {
      if (!hex || hex === '0x') return '0';
      return BigInt(hex).toString();
  }
  export function decimalToHex(decimal: string | number | bigint): string {
      const bigIntValue = BigInt(decimal);
      return '0x' + bigIntValue.toString(16);
  }
  \<close>
\<close>

definition hexToDecimal :: "string \<Rightarrow> js_error + string" where
  "hexToDecimal hex =
     (if hex = [] \<or> hex = ''0x'' then Inr ''0''
      else case BigInt (JString hex) of
             Inl e \<Rightarrow> Inl e
           | Inr v \<Rightarrow> Inr (BigInt_toString 10 v))"

definition decimalToHex :: "js_value \<Rightarrow> js_error + string" where
  "decimalToHex decimal =
     (case BigInt decimal of
        Inl e \<Rightarrow> Inl e
      | Inr bigIntValue \<Rightarrow> Inr (''0x'' @ BigInt_toString 16 bigIntValue))"

section \<open>Fixed-point unit conversion\<close>

text \<open>
  \<^verbatim>\<open>
  export function weiToCro(wei: string | bigint, decimals: number = CRO_DECIMALS): string {
      const weiBigInt = typeof wei === 'string' ? BigInt(wei) : wei;
      const divisor = BigInt(10 ** decimals);
      const wholePart = weiBigInt / divisor;
      const fractionalPart = weiBigInt % divisor;
      if (fractionalPart === BigInt(0)) {
          return wholePart.toString();
      }
      const fractionalStr = fractionalPart.toString().padStart(decimals, '0');
      const trimmedFractional = fractionalStr.replace(/0+$/, '');
      return `${wholePart}.${trimmedFractional}`;
  }
  \<close>
  The divisor is computed on Numbers (\<^verbatim>\<open>10 ** decimals\<close>) and converted to a BigInt
  afterwards. BigInt division truncates towards zero and the remainder has the sign of the
  dividend; an operand that is no BigInt is a TypeError.
\<close>

definition CRO_DECIMALS :: nat where
  "CRO_DECIMALS = 18"

definition strip_trailing_zeros :: "string \<Rightarrow> string" where
  "strip_trailing_zeros s = rev (dropWhile (\<lambda>c. c = CHR ''0'') (rev s))"

definition weiToCro :: "js_value \<Rightarrow> nat \<Rightarrow> js_error + string" where
  "weiToCro wei decimals =
     (case (case wei of
              JString s \<Rightarrow> (case BigInt wei of Inl e \<Rightarrow> Inl e | Inr i \<Rightarrow> Inr (JBigInt i))
            | _ \<Rightarrow> Inr wei) of
        Inl e \<Rightarrow> Inl e
      | Inr weiBigInt \<Rightarrow>
          (case BigInt (JNumber (pow10 decimals)) of
             Inl e \<Rightarrow> Inl e
           | Inr divisor \<Rightarrow>
               (case weiBigInt of
                  JBigInt w \<Rightarrow>
                    if divisor = 0 then Inl RangeError
                    else let wholePart = w sdiv divisor;
                             fractionalPart = w smod divisor
                         in if fractionalPart = 0 then Inr (BigInt_toString 10 wholePart)
                            else let fractionalStr =
                                       padStart decimals CHR ''0'' (BigInt_toString 10 fractionalPart);
                                     trimmedFractional = strip_trailing_zeros fractionalStr
                                 in Inr (BigInt_toString 10 wholePart @ ''.'' @ trimmedFractional)
                | _ \<Rightarrow> Inl TypeError)))"

text \<open>
  \<^verbatim>\<open>
  export function croToWei(cro: string | number, decimals: number = CRO_DECIMALS): string {
      const croStr = cro.toString();
      const [wholePart, fractionalPart = ''] = croStr.split('.');
      const paddedFractional = fractionalPart.padEnd(decimals, '0').slice(0, decimals);
      const combined = wholePart + paddedFractional;
      return BigInt(combined).toString();
  }
  \<close>
\<close>

fun split_on :: "char \<Rightarrow> string \<Rightarrow> string list" where
  "split_on d [] = [[]]"
| "split_on d (c # cs) =
     (if c = d then [] # split_on d cs
      else case split_on d cs of
             [] \<Rightarrow> [[c]]
           | p # ps \<Rightarrow> (c # p) # ps)"

definition croToWei :: "js_value \<Rightarrow> nat \<Rightarrow> js_error + string" where
  "croToWei cro decimals =
     (let croStr = js_toString cro;
          parts = split_on CHR ''.'' croStr;
          wholePart = (case parts of [] \<Rightarrow> [] | w # _ \<Rightarrow> w);
          fractionalPart = (case parts of _ # f # _ \<Rightarrow> f | _ \<Rightarrow> []);
          paddedFractional = slice 0 (int decimals) (padEnd decimals CHR ''0'' fractionalPart);
          combined = wholePart @ paddedFractional
      in case BigInt (JString combined) of
           Inl e \<Rightarrow> Inl e
         | Inr v \<Rightarrow> Inr (BigInt_toString 10 v))"

section \<open>Encoding of function calls\<close>

text \<open>
  \<^verbatim>\<open>
  export function padAddress(address: string): string {
      const cleanAddress = address.toLowerCase().replace('0x', '');
      return '0x' + cleanAddress.padStart(64, '0');
  }
  export function padNumber(num: string | number | bigint): string {
      const hexValue = BigInt(num).toString(16);
      return '0x' + hexValue.padStart(64, '0');
  }
  \<close>
\<close>

definition padAddress :: "string \<Rightarrow> string" where
  "padAddress address =
     (let cleanAddress = replace_first ''0x'' [] (toLowerCase address)
      in ''0x'' @ padStart 64 CHR ''0'' cleanAddress)"

definition padNumber :: "js_value \<Rightarrow> js_error + string" where
  "padNumber num =
     (case BigInt num of
        Inl e \<Rightarrow> Inl e
      | Inr v \<Rightarrow> Inr (''0x'' @ padStart 64 CHR ''0'' (BigInt_toString 16 v)))"

record param =
  ptype :: string
  pvalue :: js_value

text \<open>
  \<^verbatim>\<open>
  export function encodeFunctionCall(functionSignature, params): string {
      let data = functionSignature;
      for (const param of params) {
          if (param.type === 'address') {
              data += padAddress(param.value.toString()).slice(2);
          } else if (param.type === 'uint256' || param.type === 'uint' || param.type === 'int256') {
              data += padNumber(param.value).slice(2);
          } else if (param.type === 'bool') {
              data += padNumber(param.value ? 1 : 0).slice(2);
          } else if (param.type === 'bytes32') {
              const hexValue = param.value.toString().replace('0x', '');
              data += hexValue.padEnd(64, '0');
          }
      }
      return data;
  }
  \<close>
  The loop is the recursion over the parameter list, \<open>data\<close> the accumulator.
\<close>

fun encodeFunctionCall :: "string \<Rightarrow> param list \<Rightarrow> js_error + string" where
  "encodeFunctionCall data [] = Inr data"
| "encodeFunctionCall data (p # params) =
     (if ptype p = ''address'' then
        encodeFunctionCall (data @ slice_from 2 (padAddress (js_toString (pvalue p)))) params
      else if ptype p = ''uint256'' \<or> ptype p = ''uint'' \<or> ptype p = ''int256'' then
        (case padNumber (pvalue p) of
           Inl e \<Rightarrow> Inl e
         | Inr w \<Rightarrow> encodeFunctionCall (data @ slice_from 2 w) params)
      else if ptype p = ''bool'' then
        (case padNumber (JNumber (Finite (if truthy (pvalue p) then 1 else 0))) of
           Inl e \<Rightarrow> Inl e
         | Inr w \<Rightarrow> encodeFunctionCall (data @ slice_from 2 w) params)
      else if ptype p = ''bytes32'' then
        (let hexValue = replace_first ''0x'' [] (js_toString (pvalue p))
         in encodeFunctionCall (data @ padEnd 64 CHR ''0'' hexValue) params)
      else encodeFunctionCall data params)"

text \<open>
  \<^verbatim>\<open>
  export function isValidAddress(address: string): boolean {
      return /^0x[a-fA-F0-9]{40}$/.test(address);
  }
  \<close>
\<close>

definition isValidAddress :: "js_value \<Rightarrow> bool" where
  "isValidAddress address =
     (let s = js_toString address
      in startsWith s ''0x'' \<and> length s = 42 \<and> list_all (is_digit 16) (drop 2 s))"

text \<open>
  The loop of the action \<^verbatim>\<open>encodeFunction\<close>, on the parameters that \<^verbatim>\<open>JSON.parse\<close>
  returned; \<open>n\<close> is \<^verbatim>\<open>params.length\<close>.
  \<^verbatim>\<open>
  let encodedData = functionSignature;
  for (const param of params) {
      if (param.type === 'address') {
          if (!isValidAddress(param.value)) {
              throw new Error(`Invalid address: ${param.value}`);
          }
          encodedData += param.value.toLowerCase().replace('0x', '').padStart(64, '0');
      } else if (param.type === 'uint256' || param.type.startsWith('uint') || param.type.startsWith('int')) {
          const bigIntValue = BigInt(param.value);
          encodedData += bigIntValue.toString(16).padStart(64, '0');
      } else if (param.type === 'bool') {
          const boolValue = param.value === 'true' || param.value === '1' ? '1' : '0';
          encodedData += boolValue.padStart(64, '0');
      } else if (param.type === 'bytes32') {
          const bytesValue = param.value.replace('0x', '');
          encodedData += bytesValue.padEnd(64, '0');
      } else if (param.type === 'bytes') {
          const bytesValue = param.value.replace('0x', '');
          const offset = (params.length * 32).toString(16).padStart(64, '0');
          encodedData += offset;
      } else if (param.type === 'string') {
          const offset = (params.length * 32).toString(16).padStart(64, '0');
          encodedData += offset;
      }
  }
  \<close>
  Only a string has the methods \<^verbatim>\<open>toLowerCase\<close> and \<^verbatim>\<open>replace\<close>.
\<close>

fun encodeFunction_loop :: "nat \<Rightarrow> string \<Rightarrow> param list \<Rightarrow> js_error + string" where
  "encodeFunction_loop n encodedData [] = Inr encodedData"
| "encodeFunction_loop n encodedData (p # params) =
     (if ptype p = ''address'' then
        (if \<not> isValidAddress (pvalue p)
         then Inl (Error (''Invalid address: '' @ js_toString (pvalue p)))
         else case pvalue p of
                JString v \<Rightarrow>
                  encodeFunction_loop n
                    (encodedData @ padStart 64 CHR ''0'' (replace_first ''0x'' [] (toLowerCase v)))
                    params
              | _ \<Rightarrow> Inl TypeError)
      else if ptype p = ''uint256'' \<or> startsWith (ptype p) ''uint'' \<or> startsWith (ptype p) ''int'' then
        (case BigInt (pvalue p) of
           Inl e \<Rightarrow> Inl e
         | Inr bigIntValue \<Rightarrow>
             encodeFunction_loop n
               (encodedData @ padStart 64 CHR ''0'' (BigInt_toString 16 bigIntValue)) params)
      else if ptype p = ''bool'' then
        (let boolValue =
               (if pvalue p = JString ''true'' \<or> pvalue p = JString ''1'' then ''1'' else ''0'')
         in encodeFunction_loop n (encodedData @ padStart 64 CHR ''0'' boolValue) params)
      else if ptype p = ''bytes32'' then
        (case pvalue p of
           JString v \<Rightarrow>
             (let bytesValue = replace_first ''0x'' [] v
              in encodeFunction_loop n (encodedData @ padEnd 64 CHR ''0'' bytesValue) params)
         | _ \<Rightarrow> Inl TypeError)
      else if ptype p = ''bytes'' then
        (case pvalue p of
           JString v \<Rightarrow>
             (let offset = padStart 64 CHR ''0'' (BigInt_toString 16 (int n * 32))
              in encodeFunction_loop n (encodedData @ offset) params)
         | _ \<Rightarrow> Inl TypeError)
      else if ptype p = ''string'' then
        (let offset = padStart 64 CHR ''0'' (BigInt_toString 16 (int n * 32))
         in encodeFunction_loop n (encodedData @ offset) params)
      else encodeFunction_loop n encodedData params)"

definition encodeFunction :: "string \<Rightarrow> param list \<Rightarrow> js_error + string" where
  "encodeFunction functionSignature params =
     encodeFunction_loop (length params) functionSignature params"

section \<open>Decoding\<close>

text \<open>
  \<^verbatim>\<open>
  export function decodeUint256(hex: string): string {
      if (!hex || hex === '0x') return '0';
      return BigInt(hex).toString();
  }
  export function decodeAddress(hex: string): string {
      if (!hex || hex === '0x') return '0x0000000000000000000000000000000000000000';
      const cleanHex = hex.replace('0x', '');
      return '0x' + cleanHex.slice(-40).toLowerCase();
  }
  \<close>
\<close>

definition decodeUint256 :: "string \<Rightarrow> js_error + string" where
  "decodeUint256 hex =
     (if hex = [] \<or> hex = ''0x'' then Inr ''0''
      else case BigInt (JString hex) of
             Inl e \<Rightarrow> Inl e
           | Inr v \<Rightarrow> Inr (BigInt_toString 10 v))"

definition decodeAddress :: "string \<Rightarrow> string" where
  "decodeAddress hex =
     (if hex = [] \<or> hex = ''0x'' then ''0x0000000000000000000000000000000000000000''
      else let cleanHex = replace_first ''0x'' [] hex
           in ''0x'' @ toLowerCase (slice_from (- 40) cleanHex))"

text \<open>
  \<^verbatim>\<open>
  export function decodeString(hex: string): string {
      if (!hex || hex === '0x') return '';
      const cleanHex = hex.replace('0x', '');
      let result = '';
      for (let i = 0; i < cleanHex.length; i += 2) {
          const charCode = parseInt(cleanHex.substr(i, 2), 16);
          if (charCode > 0 && charCode < 128) {
              result += String.fromCharCode(charCode);
          }
      }
      return result.replace(/\0/g, '').trim();
  }
  \<close>
\<close>

definition fromCharCode_ascii :: "js_number \<Rightarrow> string" where
  "fromCharCode_ascii charCode =
     (case charCode of
        Finite c \<Rightarrow> if 0 < c \<and> c < 128 then [char_of (nat c)] else []
      | _ \<Rightarrow> [])"

fun decodeString_loop :: "string \<Rightarrow> string" where
  "decodeString_loop (a # b # cs) = fromCharCode_ascii (parseInt16 [a, b]) @ decodeString_loop cs"
| "decodeString_loop [a] = fromCharCode_ascii (parseInt16 [a])"
| "decodeString_loop [] = []"

definition remove_nulls :: "string \<Rightarrow> string" where
  "remove_nulls s = filter (\<lambda>c. c \<noteq> CHR 0x00) s"

definition decodeString :: "string \<Rightarrow> string" where
  "decodeString hex =
     (if hex = [] \<or> hex = ''0x'' then []
      else let cleanHex = replace_first ''0x'' [] hex
           in trim (remove_nulls (decodeString_loop cleanHex)))"

text \<open>
  \<^verbatim>\<open>
  export function parseLogData(data: string, types: string[]): string[] {
      if (!data || data === '0x') return [];
      const cleanData = data.replace('0x', '');
      const values: string[] = [];
      for (let i = 0; i < types.length; i++) {
          const chunk = cleanData.slice(i * 64, (i + 1) * 64);
          if (!chunk) break;
          const type = types[i];
          if (type === 'address') {
              values.push(decodeAddress('0x' + chunk));
          } else if (type.startsWith('uint') || type.startsWith('int')) {
              values.push(decodeUint256('0x' + chunk));
          } else {
              values.push('0x' + chunk);
          }
      }
      return values;
  }
  \<close>
  The loop runs over the types that are left, from index \<open>i\<close>; \<open>parseLogData_word\<close> is
  the value that the body pushes for a type and a chunk.
\<close>

definition parseLogData_word :: "string \<Rightarrow> string \<Rightarrow> js_error + string" where
  "parseLogData_word type chunk =
     (if type = ''address'' then Inr (decodeAddress (''0x'' @ chunk))
      else if startsWith type ''uint'' \<or> startsWith type ''int'' then decodeUint256 (''0x'' @ chunk)
      else Inr (''0x'' @ chunk))"

fun parseLogData_loop :: "string \<Rightarrow> nat \<Rightarrow> string list \<Rightarrow> string list \<Rightarrow> js_error + string list" where
  "parseLogData_loop cleanData i [] values = Inr values"
| "parseLogData_loop cleanData i (type # types) values =
     (let chunk = slice (int i * 64) ((int i + 1) * 64) cleanData
      in if chunk = [] then Inr values
         else case parseLogData_word type chunk of
                Inl e \<Rightarrow> Inl e
              | Inr v \<Rightarrow> parseLogData_loop cleanData (i + 1) types (values @ [v]))"

definition parseLogData :: "string \<Rightarrow> string list \<Rightarrow> js_error + string list" where
  "parseLogData data types =
     (if data = [] \<or> data = ''0x'' then Inr []
      else parseLogData_loop (replace_first ''0x'' [] data) 0 types [])"

text \<open>
  The action \<^verbatim>\<open>decodeData\<close>, on the type list that parsing the \<^verbatim>\<open>types\<close> parameter gave.
  \<^verbatim>\<open>
  const cleanData = data.replace('0x', '');
  let functionSelector = '';
  let paramData = cleanData;
  if (cleanData.length >= 8) {
      functionSelector = '0x' + cleanData.slice(0, 8);
      paramData = cleanData.slice(8);
  }
  const decodedValues = [];
  const chunks = paramData.match(/.{1,64}/g) || [];
  for (let i = 0; i < chunks.length; i++) {
      const chunk = chunks[i].padEnd(64, '0');
      const type = typeArray[i] || 'unknown';
      let decoded: string;
      if (type === 'address') {
          decoded = decodeAddress('0x' + chunk);
      } else if (type.startsWith('uint') || type.startsWith('int')) {
          decoded = decodeUint256('0x' + chunk);
      } else if (type === 'bool') {
          decoded = parseInt(chunk, 16) === 1 ? 'true' : 'false';
      } else if (type === 'bytes32') {
          decoded = '0x' + chunk;
      } else {
          decoded = decodeUint256('0x' + chunk);
      }
      decodedValues.push({ type, raw: '0x' + chunk, decoded });
  }
  \<close>
  \<open>decodeData_word\<close> is the value of \<^verbatim>\<open>decoded\<close> for a type and a chunk. The pattern
  \<^verbatim>\<open>.{1,64}\<close> takes up to 64 characters greedily; the dot matches no line
  terminator, so a match ends before one and the terminator belongs to no match.
\<close>

definition is_line_terminator :: "char \<Rightarrow> bool" where
  "is_line_terminator c = (c = CHR 0x0A \<or> c = CHR 0x0D)"

fun match_chunks :: "string \<Rightarrow> string list" where
  "match_chunks [] = []"
| "match_chunks (c # cs) =
     (if is_line_terminator c then match_chunks cs
      else let run = takeWhile (\<lambda>x. \<not> is_line_terminator x) (take 63 cs)
           in (c # run) # match_chunks (drop (length run) cs))"

record decoded_value =
  dtype :: string
  raw :: string
  decoded :: string

definition type_at :: "string list \<Rightarrow> nat \<Rightarrow> string" where
  "type_at typeArray i =
     (if i < length typeArray \<and> typeArray ! i \<noteq> [] then typeArray ! i else ''unknown'')"

definition decodeData_word :: "string \<Rightarrow> string \<Rightarrow> js_error + string" where
  "decodeData_word type chunk =
     (if type = ''address'' then Inr (decodeAddress (''0x'' @ chunk))
      else if startsWith type ''uint'' \<or> startsWith type ''int'' then decodeUint256 (''0x'' @ chunk)
      else if type = ''bool'' then Inr (if parseInt16 chunk = Finite 1 then ''true'' else ''false'')
      else if type = ''bytes32'' then Inr (''0x'' @ chunk)
      else decodeUint256 (''0x'' @ chunk))"

fun decodeData_loop ::
  "string list \<Rightarrow> nat \<Rightarrow> string list \<Rightarrow> decoded_value list \<Rightarrow> js_error + decoded_value list" where
  "decodeData_loop typeArray i [] decodedValues = Inr decodedValues"
| "decodeData_loop typeArray i (c # chunks) decodedValues =
     (let chunk = padEnd 64 CHR ''0'' c;
          type = type_at typeArray i
      in case decodeData_word type chunk of
           Inl e \<Rightarrow> Inl e
         | Inr d \<Rightarrow>
             decodeData_loop typeArray (i + 1) chunks
               (decodedValues @ [\<lparr>dtype = type, raw = ''0x'' @ chunk, decoded = d\<rparr>]))"

definition paramData_of :: "string \<Rightarrow> string" where
  "paramData_of data =
     (let cleanData = replace_first ''0x'' [] data
      in if 8 \<le> length cleanData then slice_from 8 cleanData else cleanData)"

definition functionSelector_of :: "string \<Rightarrow> string" where
  "functionSelector_of data =
     (let cleanData = replace_first ''0x'' [] data
      in if 8 \<le> length cleanData then ''0x'' @ slice 0 8 cleanData else [])"

definition decodeData :: "string \<Rightarrow> string list \<Rightarrow> js_error + decoded_value list" where
  "decodeData data typeArray = decodeData_loop typeArray 0 (match_chunks (paramData_of data)) []"

section \<open>Decoding a single string return value\<close>

text \<open>
  \<^verbatim>\<open>Buffer.from(h, 'hex')\<close> reads pairs of hex digits up to the first pair that is none.
\<close>

fun Buffer_from_hex :: "string \<Rightarrow> nat list" where
  "Buffer_from_hex (a # b # cs) =
     (case (digit_val a, digit_val b) of
        (Some x, Some y) \<Rightarrow> (16 * x + y) # Buffer_from_hex cs
      | _ \<Rightarrow> [])"
| "Buffer_from_hex _ = []"

text \<open>
  \<^verbatim>\<open>toString('utf8')\<close> reads the bytes as UTF-8. The model keeps a decoded text as the
  bytes of its UTF-8 encoding: a well-formed sequence stands for itself, and every
  ill-formed part is replaced by U+FFFD (the bytes \<^verbatim>\<open>EF BF BD\<close>), one replacement for each
  longest prefix of a well-formed sequence, after which decoding goes on at the byte that
  did not fit. The second byte of a sequence is bounded by its first byte (no overlong
  form, no surrogate, nothing beyond U+10FFFF).
\<close>

definition utf8_replacement :: "nat list" where
  "utf8_replacement = [0xEF, 0xBF, 0xBD]"

definition in_range :: "nat \<Rightarrow> nat \<Rightarrow> nat \<Rightarrow> bool" where
  "in_range lo hi c = (lo \<le> c \<and> c \<le> hi)"

definition second_lower :: "nat \<Rightarrow> nat" where
  "second_lower b = (if b = 0xE0 then 0xA0 else if b = 0xF0 then 0x90 else 0x80)"

definition second_upper :: "nat \<Rightarrow> nat" where
  "second_upper b = (if b = 0xED then 0x9F else if b = 0xF4 then 0x8F else 0xBF)"

fun utf8_decode :: "nat list \<Rightarrow> nat list" where
  "utf8_decode [] = []"
| "utf8_decode (b # bs) =
     (if b < 0x80 then b # utf8_decode bs
      else if in_range 0xC2 0xDF b then
        (case bs of
           [] \<Rightarrow> utf8_replacement
         | c # cs \<Rightarrow>
             if in_range 0x80 0xBF c then b # c # utf8_decode cs
             else utf8_replacement @ utf8_decode bs)
      else if in_range 0xE0 0xEF b then
        (case bs of
           [] \<Rightarrow> utf8_replacement
         | c # cs \<Rightarrow>
             if \<not> in_range (second_lower b) (second_upper b) c then utf8_replacement @ utf8_decode bs
             else (case cs of
                     [] \<Rightarrow> utf8_replacement
                   | d # ds \<Rightarrow>
                       if in_range 0x80 0xBF d then b # c # d # utf8_decode ds
                       else utf8_replacement @ utf8_decode cs))
      else if in_range 0xF0 0xF4 b then
        (case bs of
           [] \<Rightarrow> utf8_replacement
         | c # cs \<Rightarrow>
             if \<not> in_range (second_lower b) (second_upper b) c then utf8_replacement @ utf8_decode bs
             else (case cs of
                     [] \<Rightarrow> utf8_replacement
                   | d # ds \<Rightarrow>
                       if \<not> in_range 0x80 0xBF d then utf8_replacement @ utf8_decode cs
                       else (case ds of
                               [] \<Rightarrow> utf8_replacement
                             | e # es \<Rightarrow>
                                 if in_range 0x80 0xBF e then b # c # d # e # utf8_decode es
                                 else utf8_replacement @ utf8_decode ds)))
      else utf8_replacement @ utf8_decode bs)"

definition toString_utf8 :: "nat list \<Rightarrow> string" where
  "toString_utf8 bytes = map char_of (utf8_decode bytes)"

text \<open>
  In \<^verbatim>\<open>getNFTMetadata\<close> (\<^verbatim>\<open>actions/nfts/index.ts\<close>), the token URI, initially \<^verbatim>\<open>''\<close>:
  \<^verbatim>\<open>
  if (result && result !== '0x' && result.length > 2) {
      const hexStr = result.replace('0x', '');
      if (hexStr.length >= 128) {
          const offset = parseInt(hexStr.slice(0, 64), 16) * 2;
          const length = parseInt(hexStr.slice(offset, offset + 64), 16);
          const uriHex = hexStr.slice(offset + 64, offset + 64 + length * 2);
          tokenURI = Buffer.from(uriHex, 'hex').toString('utf8');
      }
  }
  \<close>
\<close>

definition decode_tokenURI :: "string \<Rightarrow> string" where
  "decode_tokenURI result =
     (if result \<noteq> [] \<and> result \<noteq> ''0x'' \<and> 2 < length result then
        (let hexStr = replace_first ''0x'' [] result
         in if 128 \<le> length hexStr then
              (let offset = num_times (parseInt16 (slice 0 64 hexStr)) 2;
                   len = parseInt16 (slice_num offset (num_add offset (Finite 64)) hexStr);
                   uriHex = slice_num (num_add offset (Finite 64))
                              (num_add (num_add offset (Finite 64)) (num_times len 2)) hexStr
               in toString_utf8 (Buffer_from_hex uriHex))
            else [])
      else [])"

text \<open>
  The collection name and symbol, in the same function and again in the token actions:
  \<^verbatim>\<open>
  if (nameResult && nameResult !== '0x' && nameResult.length > 2) {
      const hexStr = nameResult.replace('0x', '');
      if (hexStr.length >= 128) {
          const length = parseInt(hexStr.slice(64, 128), 16);
          const nameHex = hexStr.slice(128, 128 + length * 2);
          name = Buffer.from(nameHex, 'hex').toString('utf8').replace(/\0/g, '');
      }
  }
  \<close>
\<close>

definition decode_name :: "string \<Rightarrow> string" where
  "decode_name nameResult =
     (if nameResult \<noteq> [] \<and> nameResult \<noteq> ''0x'' \<and> 2 < length nameResult then
        (let hexStr = replace_first ''0x'' [] nameResult
         in if 128 \<le> length hexStr then
              (let len = parseInt16 (slice 64 128 hexStr);
                   nameHex = slice_num (Finite 128) (num_add (Finite 128) (num_times len 2)) hexStr
               in remove_nulls (toString_utf8 (Buffer_from_hex nameHex)))
            else [])
      else [])"

section \<open>Block numbers\<close>

text \<open>
  \<^verbatim>\<open>
  export function formatBlockNumber(blockNumber: string | number): string {
      if (typeof blockNumber === 'string') {
          if (blockNumber === 'latest' || blockNumber === 'earliest' || blockNumber === 'pending') {
              return blockNumber;
          }
          if (blockNumber.startsWith('0x')) {
              return blockNumber;
          }
          return decimalToHex(blockNumber);
      }
      return decimalToHex(blockNumber);
  }
  \<close>
\<close>

definition formatBlockNumber :: "js_value \<Rightarrow> js_error + string" where
  "formatBlockNumber blockNumber =
     (case blockNumber of
        JString s \<Rightarrow>
          if s = ''latest'' \<or> s = ''earliest'' \<or> s = ''pending'' then Inr s
          else if startsWith s ''0x'' then Inr s
          else decimalToHex blockNumber
      | _ \<Rightarrow> decimalToHex blockNumber)"

section \<open>Properties of the runtime functions\<close>

subsection \<open>Evaluation on literals\<close>

lemma replicate_numeral: "replicate (numeral k) x = x # replicate (pred_numeral k) x"
  by (simp add: numeral_eq_Suc)

text \<open>A \<open>let\<close> is unfolded once its argument is a value, so that nothing is computed twice.\<close>

lemma Let_value:
  "Let [] f = f []" "Let (x # xs) f = f (x # xs)"
  "Let (0::nat) g = g 0" "Let (1::nat) g = g 1" "Let (numeral k :: nat) g = g (numeral k)"
  "Let (0::int) h = h 0" "Let (1::int) h = h 1" "Let (numeral k :: int) h = h (numeral k)"
  "Let (- numeral k :: int) h = h (- numeral k)"
  "Let (Finite i) u = u (Finite i)" "Let NaN u = u NaN"
  "Let PosInfinity u = u PosInfinity" "Let NegInfinity u = u NegInfinity"
  by (simp_all add: Let_def)

lemmas js_eval = digit_char_def digit_val_def is_digit_def is_space_def to_lower_def toLowerCase_def
  startsWith_def padStart_def padEnd_def slice_def slice_from_def trim_def parse_nat_def
  StringToBigInt_def render_nat.simps BigInt_toString_def hexToDecimal_def decimalToHex_def Let_value
  bit_length.simps round_binary64_def to_Number_def pow10_def parseInt16_def slice_num_def
  CRO_DECIMALS_def strip_trailing_zeros_def weiToCro_def croToWei_def padAddress_def padNumber_def
  isValidAddress_def encodeFunction_def signed_divide_int_def signed_modulo_int_def replicate_numeral
  decodeUint256_def decodeAddress_def fromCharCode_ascii_def remove_nulls_def decodeString_def
  parseLogData_def is_line_terminator_def type_at_def paramData_of_def functionSelector_of_def
  parseLogData_word_def decodeData_word_def
  decodeData_def toString_utf8_def decode_tokenURI_def decode_name_def formatBlockNumber_def
  utf8_replacement_def in_range_def second_lower_def second_upper_def

subsection \<open>Digits\<close>

lemma digit_val_digit_char: "v < 16 \<Longrightarrow> digit_val (digit_char v) = Some v"
  by (auto simp: less_Suc_eq eval_nat_numeral digit_char_def digit_val_def)

lemma is_digit_digit_char: "v < r \<Longrightarrow> r \<le> 16 \<Longrightarrow> is_digit r (digit_char v)"
  by (simp add: is_digit_def digit_val_digit_char)

lemma is_digit_not_space: "is_digit r c \<Longrightarrow> \<not> is_space c"
  by (auto simp: is_digit_def is_space_def digit_val_def Let_def split: if_splits)

lemma parse_digits_append:
  "parse_digits r (xs @ ys) acc =
     (case parse_digits r xs acc of None \<Rightarrow> None | Some a \<Rightarrow> parse_digits r ys a)"
  by (induction xs arbitrary: acc) (auto split: option.splits)

lemma render_nat_nonempty: "render_nat r n \<noteq> []"
  by (subst render_nat.simps) simp

lemma render_nat_digits:
  "2 \<le> r \<Longrightarrow> r \<le> 16 \<Longrightarrow> c \<in> set (render_nat r n) \<Longrightarrow> is_digit r c"
proof (induction r n rule: render_nat.induct)
  case (1 r n)
  show ?case
  proof (cases "n < r")
    case True
    with "1.prems" show ?thesis
      by (subst (asm) render_nat.simps) (simp add: is_digit_digit_char)
  next
    case False
    with "1.prems" have "c \<in> set (render_nat r (n div r)) \<or> c = digit_char (n mod r)"
      by (subst (asm) render_nat.simps) auto
    then show ?thesis
    proof
      assume "c \<in> set (render_nat r (n div r))"
      with "1.IH" False "1.prems" show ?thesis by simp
    next
      assume "c = digit_char (n mod r)"
      with "1.prems" show ?thesis by (simp add: is_digit_digit_char)
    qed
  qed
qed

lemma parse_digits_render_nat:
  "2 \<le> r \<Longrightarrow> r \<le> 16 \<Longrightarrow> parse_digits r (render_nat r n) 0 = Some n"
proof (induction r n rule: render_nat.induct)
  case (1 r n)
  show ?case
  proof (cases "n < r")
    case True
    with "1.prems" show ?thesis
      by (subst render_nat.simps) (simp add: digit_val_digit_char)
  next
    case False
    with "1.prems" have ih: "parse_digits r (render_nat r (n div r)) 0 = Some (n div r)"
      using "1.IH" by simp
    have "n mod r < r" using "1.prems" by simp
    then have "n mod r < 16" using "1.prems" by linarith
    with False "1.prems" ih show ?thesis
      by (subst render_nat.simps) (simp add: parse_digits_append digit_val_digit_char)
  qed
qed

lemma parse_nat_render_nat:
  "2 \<le> r \<Longrightarrow> r \<le> 16 \<Longrightarrow> parse_nat r (render_nat r n) = Some n"
  by (simp add: parse_nat_def render_nat_nonempty parse_digits_render_nat)

lemma trim_id:
  assumes "s \<noteq> []" "\<not> is_space (hd s)" "\<not> is_space (last s)"
  shows "trim s = s"
proof -
  from assms have a: "dropWhile is_space s = s" by (cases s) simp_all
  from assms have "rev s \<noteq> []" "\<not> is_space (hd (rev s))" by (simp_all add: hd_rev)
  then have "dropWhile is_space (rev s) = rev s" by (cases "rev s") simp_all
  with a show ?thesis by (simp add: trim_def)
qed

lemma startsWith_set: "startsWith t p \<Longrightarrow> set p \<subseteq> set t"
  by (metis startsWith_def set_take_subset)


lemma not_decimal_digit:
  "\<not> is_digit 10 CHR ''x''" "\<not> is_digit 10 CHR ''X''" "\<not> is_digit 10 CHR ''o''"
  "\<not> is_digit 10 CHR ''O''" "\<not> is_digit 10 CHR ''b''" "\<not> is_digit 10 CHR ''B''"
  "\<not> is_digit 10 CHR ''-''" "\<not> is_digit 10 CHR ''+''"
  by (simp_all add: is_digit_def digit_val_def)

lemma startsWith_mem: "startsWith t p \<Longrightarrow> c \<in> set p \<Longrightarrow> \<forall>c \<in> set t. P c \<Longrightarrow> P c"
  using startsWith_set by blast

lemma digits_no_prefix:
  assumes "\<forall>c \<in> set t. is_digit 10 c"
  shows "\<not> startsWith t ''0x''" "\<not> startsWith t ''0X''" "\<not> startsWith t ''0o''"
    "\<not> startsWith t ''0O''" "\<not> startsWith t ''0b''" "\<not> startsWith t ''0B''"
    "\<not> startsWith t ''-''" "\<not> startsWith t ''+''"
proof -
  have "\<not> startsWith t p" if "c \<in> set p" "\<not> is_digit 10 c" for p c
    using startsWith_mem [OF _ that(1) assms] that(2) by blast
  from this [of "CHR ''x''" "''0x''"] this [of "CHR ''X''" "''0X''"] this [of "CHR ''o''" "''0o''"]
    this [of "CHR ''O''" "''0O''"] this [of "CHR ''b''" "''0b''"] this [of "CHR ''B''" "''0B''"]
    this [of "CHR ''-''" "''-''"] this [of "CHR ''+''" "''+''"]
  show "\<not> startsWith t ''0x''" "\<not> startsWith t ''0X''" "\<not> startsWith t ''0o''"
    "\<not> startsWith t ''0O''" "\<not> startsWith t ''0b''" "\<not> startsWith t ''0B''"
    "\<not> startsWith t ''-''" "\<not> startsWith t ''+''"
    by (simp_all add: not_decimal_digit)
qed

lemma StringToBigInt_decimal: "StringToBigInt (render_nat 10 n) = Some (int n)"
proof -
  let ?t = "render_nat 10 n"
  have ne: "?t \<noteq> []" by (rule render_nat_nonempty)
  have dig: "\<forall>c \<in> set ?t. is_digit 10 c" by (simp add: render_nat_digits)
  from ne dig have "is_digit 10 (hd ?t)" "is_digit 10 (last ?t)"
    using hd_in_set last_in_set by blast+
  then have "\<not> is_space (hd ?t)" "\<not> is_space (last ?t)"
    by (simp_all add: is_digit_not_space)
  with ne have tr: "trim ?t = ?t" by (rule trim_id)
  show ?thesis
    using ne digits_no_prefix [OF dig]
    by (simp add: StringToBigInt_def tr parse_nat_render_nat)
qed

lemma StringToBigInt_hex: "StringToBigInt (''0x'' @ render_nat 16 n) = Some (int n)"
proof -
  let ?h = "render_nat 16 n"
  have ne: "?h \<noteq> []" by (rule render_nat_nonempty)
  have "is_digit 16 (last ?h)" using ne last_in_set render_nat_digits [of 16 _ n] by force
  then have "\<not> is_space (last (''0x'' @ ?h))" using ne by (simp add: is_digit_not_space)
  moreover have "\<not> is_space (hd (''0x'' @ ?h))" by (simp add: is_space_def)
  ultimately have tr: "trim (''0x'' @ ?h) = ''0x'' @ ?h" by (intro trim_id) simp_all
  show ?thesis
    using tr by (simp add: StringToBigInt_def startsWith_def parse_nat_render_nat)
qed

subsection \<open>Strings\<close>

lemma replace_first_0x_prefix: "replace_first ''0x'' r (CHR ''0'' # CHR ''x'' # w) = r @ w"
  by (simp add: startsWith_def)

lemma replace_first_absent: "c \<in> set p \<Longrightarrow> c \<notin> set s \<Longrightarrow> replace_first p r s = s"
proof (induction s)
  case Nil
  then show ?case by auto
next
  case (Cons a s)
  then have "\<not> startsWith (a # s) p"
    by (metis startsWith_def set_take_subset subsetD)
  with Cons show ?case by simp
qed

lemma slice_from_negative: "0 < k \<Longrightarrow> slice_from (- int k) s = drop (length s - k) s"
  by (simp add: slice_from_def slice_def Let_def max_def nat_diff_distrib')

lemma x_not_hex: "list_all (is_digit 16) w \<Longrightarrow> CHR ''x'' \<notin> set w"
  by (auto simp: list_all_iff is_digit_def digit_val_def)

subsection \<open>Block numbers\<close>

lemma startsWith_0x: "startsWith (''0x'' @ s) ''0x''"
  by (simp add: startsWith_def)

lemma render_nat_hex_digits: "list_all (is_digit 16) (render_nat 16 n)"
  by (simp add: list_all_iff render_nat_digits)

lemma decimalToHex_Inr:
  assumes "decimalToHex x = Inr y"
  shows "\<exists>v. BigInt x = Inr v \<and> y = ''0x'' @ BigInt_toString 16 v \<and>
             (0 \<le> v \<longrightarrow> list_all (is_digit 16) (BigInt_toString 16 v))"
proof (cases "BigInt x")
  case (Inl e)
  with assms show ?thesis by (simp add: decimalToHex_def)
next
  case (Inr v)
  with assms have "y = ''0x'' @ BigInt_toString 16 v" by (simp add: decimalToHex_def)
  moreover have "0 \<le> v \<longrightarrow> list_all (is_digit 16) (BigInt_toString 16 v)"
    by (simp add: BigInt_toString_def render_nat_hex_digits)
  ultimately show ?thesis using Inr by blast
qed

lemma formatBlockNumber_unchanged:
  assumes "t = ''latest'' \<or> t = ''earliest'' \<or> t = ''pending'' \<or> startsWith t ''0x''"
  shows "formatBlockNumber (JString t) = Inr t"
  unfolding formatBlockNumber_def using assms by (simp only: js_value.case if_True if_False split: if_split) blast

lemma formatBlockNumber_converted:
  assumes "\<forall>t. x = JString t \<longrightarrow>
             \<not> (t = ''latest'' \<or> t = ''earliest'' \<or> t = ''pending'' \<or> startsWith t ''0x'')"
  shows "formatBlockNumber x = decimalToHex x"
proof (cases x)
  case (JString t)
  with assms
  have "\<not> (t = ''latest'' \<or> t = ''earliest'' \<or> t = ''pending'')" "\<not> startsWith t ''0x''"
    by blast+
  then show ?thesis
    unfolding formatBlockNumber_def JString by (simp only: js_value.case if_False)
qed (simp_all add: formatBlockNumber_def)

lemma formatBlockNumber_other:
  assumes "formatBlockNumber x = Inr y" "x \<noteq> JString y"
  shows "decimalToHex x = Inr y"
proof (cases x)
  case (JString s)
  show ?thesis
  proof (cases "s = ''latest'' \<or> s = ''earliest'' \<or> s = ''pending'' \<or> startsWith s ''0x''")
    case True
    then have "formatBlockNumber (JString s) = Inr s" by (rule formatBlockNumber_unchanged)
    with assms JString show ?thesis by simp
  next
    case False
    then have "formatBlockNumber (JString s) = decimalToHex (JString s)"
      unfolding formatBlockNumber_def by (simp only: js_value.case if_False split: if_split) blast
    with assms JString show ?thesis by simp
  qed
qed (use assms in \<open>simp_all add: formatBlockNumber_def\<close>)

subsection \<open>Strides of 64 characters\<close>

lemma slice_nonneg:
  assumes "0 \<le> a" "a \<le> b"
  shows "slice a b s = take (nat (b - a)) (drop (nat a) s)"
proof -
  let ?n = "int (length s)"
  consider (inside) "b \<le> ?n" | (over) "a \<le> ?n" "?n < b" | (beyond) "?n < a" by linarith
  then show ?thesis
  proof cases
    case inside
    with assms show ?thesis by (simp add: slice_def Let_def)
  next
    case over
    with assms have "slice a b s = take (nat (?n - a)) (drop (nat a) s)"
      by (simp add: slice_def Let_def)
    moreover have "length (drop (nat a) s) \<le> nat (?n - a)" using assms by simp
    moreover have "length (drop (nat a) s) \<le> nat (b - a)" using assms over by simp
    ultimately show ?thesis by simp
  next
    case beyond
    with assms have "slice a b s = []" by (simp add: slice_def Let_def)
    moreover have "drop (nat a) s = []" using beyond by simp
    ultimately show ?thesis by simp
  qed
qed

lemma slice_stride: "slice (int i * 64) ((int i + 1) * 64) s = take 64 (drop (64 * i) s)"
proof -
  have "slice (int i * 64) ((int i + 1) * 64) s
          = take (nat ((int i + 1) * 64 - int i * 64)) (drop (nat (int i * 64)) s)"
    by (rule slice_nonneg) simp_all
  moreover have "nat ((int i + 1) * 64 - int i * 64) = 64" by simp
  moreover have "nat (int i * 64) = 64 * i" by (simp add: nat_mult_distrib)
  ultimately show ?thesis by simp
qed

lemma slice_from_nonneg: "slice_from (int k) s = drop k s"
  by (simp add: slice_from_def slice_def Let_def min_def)

lemma match_chunks_step:
  assumes "\<forall>c \<in> set s. \<not> is_line_terminator c" "s \<noteq> []"
  shows "match_chunks s = take 64 s # match_chunks (drop 64 s)"
proof (cases s)
  case Nil
  with assms show ?thesis by simp
next
  case (Cons c cs)
  have "\<forall>x \<in> set (take 63 cs). \<not> is_line_terminator x"
    using assms(1) Cons by (auto dest: in_set_takeD)
  then have run: "takeWhile (\<lambda>x. \<not> is_line_terminator x) (take 63 cs) = take 63 cs"
    by (simp add: takeWhile_eq_all_conv)
  have c: "\<not> is_line_terminator c" using assms(1) Cons by simp
  have "match_chunks (c # cs) = (c # take 63 cs) # match_chunks (drop (length (take 63 cs)) cs)"
    by (simp only: match_chunks.simps c if_False run Let_def)
  moreover have "take 64 (c # cs) = c # take 63 cs" by (simp add: take_Cons')
  moreover have "drop 64 (c # cs) = drop (length (take 63 cs)) cs"
    by (simp add: drop_Cons' min_def)
  ultimately show ?thesis using Cons by simp
qed

lemma strides_Suc: "0 < n \<Longrightarrow> (n + 63) div 64 = Suc ((n - 64 + 63) div 64)" for n :: nat
proof (cases "n \<le> 64")
  case True
  assume "0 < n"
  with True have "(n + 63) div 64 = 1" by (intro div_nat_eqI) simp_all
  moreover from True have "(n - 64 + 63) div 64 = 0" by simp
  ultimately show ?thesis by simp
next
  case False
  then obtain m where "n = m + 64" using le_Suc_ex [of 64 n] by (metis add.commute nat_le_linear)
  then show ?thesis by simp
qed

lemma match_chunks_strides:
  assumes "\<forall>c \<in> set s. \<not> is_line_terminator c"
  shows "length (match_chunks s) = (length s + 63) div 64 \<and>
         (\<forall>i < (length s + 63) div 64. match_chunks s ! i = take 64 (drop (64 * i) s))"
  using assms
proof (induction s rule: length_induct)
  case (1 s)
  show ?case
  proof (cases "s = []")
    case True
    then show ?thesis by simp
  next
    case False
    let ?t = "drop 64 s"
    let ?k = "(length ?t + 63) div 64"
    have step: "match_chunks s = take 64 s # match_chunks ?t"
      using "1.prems" False by (rule match_chunks_step)
    have shorter: "length ?t < length s" using False by simp
    have clean: "\<forall>c \<in> set ?t. \<not> is_line_terminator c"
      using "1.prems" by (meson in_set_dropD)
    from "1.IH" shorter clean
    have ih: "length (match_chunks ?t) = ?k \<and>
              (\<forall>i < ?k. match_chunks ?t ! i = take 64 (drop (64 * i) ?t))"
      by blast
    have "0 < length s" using False by simp
    then have "(length s + 63) div 64 = Suc ((length s - 64 + 63) div 64)" by (rule strides_Suc)
    then have len: "(length s + 63) div 64 = Suc ?k" by simp
    have a: "length (match_chunks s) = (length s + 63) div 64"
      using ih by (simp only: step len list.size length_Cons)
    have b: "match_chunks s ! i = take 64 (drop (64 * i) s)" if "i < (length s + 63) div 64" for i
    proof (cases i)
      case 0
      show ?thesis unfolding step 0 by simp
    next
      case (Suc j)
      with that len have "j < ?k" by simp
      with ih have "match_chunks ?t ! j = take 64 (drop (64 * j) ?t)" by blast
      moreover have "drop (64 * j) ?t = drop (64 * Suc j) s" by (simp add: add.commute)
      ultimately show ?thesis unfolding step Suc by simp
    qed
    from a b show ?thesis by blast
  qed
qed


lemma hex_not_line_terminator: "is_digit r c \<Longrightarrow> \<not> is_line_terminator c"
  by (auto simp: is_digit_def is_line_terminator_def digit_val_def)

lemma parse_digits_total: "list_all (is_digit r) h \<Longrightarrow> \<exists>n. parse_digits r h acc = Some n"
  by (induction h arbitrary: acc) (auto simp: is_digit_def split: option.splits)

lemma StringToBigInt_0x_digits:
  assumes "h \<noteq> []" "list_all (is_digit 16) h"
  shows "\<exists>n. StringToBigInt (''0x'' @ h) = Some (int n)"
proof -
  have "is_digit 16 (last h)" using assms by (simp add: list_all_iff)
  then have "\<not> is_space (last (''0x'' @ h))" using assms(1) by (simp add: is_digit_not_space)
  moreover have "\<not> is_space (hd (''0x'' @ h))" by (simp add: is_space_def)
  ultimately have tr: "trim (''0x'' @ h) = ''0x'' @ h" by (intro trim_id) simp_all
  obtain n where "parse_digits 16 h 0 = Some n" using parse_digits_total [OF assms(2)] by blast
  then show ?thesis
    using tr assms(1) by (simp add: StringToBigInt_def startsWith_def parse_nat_def)
qed

lemma decodeUint256_0x_digits:
  assumes "h \<noteq> []" "list_all (is_digit 16) h"
  shows "\<exists>d. decodeUint256 (''0x'' @ h) = Inr d"
proof -
  obtain n where "StringToBigInt (''0x'' @ h) = Some (int n)"
    using StringToBigInt_0x_digits [OF assms] by blast
  then show ?thesis using assms(1) by (simp add: decodeUint256_def)
qed

lemma decodeData_word_total:
  assumes "chunk \<noteq> []" "list_all (is_digit 16) chunk"
  shows "\<exists>d. decodeData_word type chunk = Inr d"
  using decodeUint256_0x_digits [OF assms] unfolding decodeData_word_def by auto

lemma parseLogData_word_total:
  assumes "chunk \<noteq> []" "list_all (is_digit 16) chunk"
  shows "\<exists>d. parseLogData_word type chunk = Inr d"
  using decodeUint256_0x_digits [OF assms] unfolding parseLogData_word_def by auto

lemma zero_is_digit: "is_digit 16 CHR ''0''"
  by (simp add: is_digit_def digit_val_def)

lemma padEnd_digits:
  "list_all (is_digit 16) c \<Longrightarrow> list_all (is_digit 16) (padEnd 64 CHR ''0'' c)"
  by (auto simp: padEnd_def list_all_iff zero_is_digit)

lemma padEnd_nonempty: "padEnd 64 x c \<noteq> []"
  by (cases c) (simp_all add: padEnd_def)

lemma decodeData_loop_strides:
  assumes "\<forall>c \<in> set cs. list_all (is_digit 16) c"
  shows "\<exists>vs. decodeData_loop T i cs acc = Inr (acc @ vs) \<and> length vs = length cs \<and>
           (\<forall>j < length cs.
              raw (vs ! j) = ''0x'' @ padEnd 64 CHR ''0'' (cs ! j) \<and>
              dtype (vs ! j) = type_at T (i + j) \<and>
              decodeData_word (type_at T (i + j)) (padEnd 64 CHR ''0'' (cs ! j)) = Inr (decoded (vs ! j)))"
  using assms
proof (induction cs arbitrary: i acc)
  case Nil
  then show ?case by simp
next
  case (Cons c cs)
  let ?chunk = "padEnd 64 CHR ''0'' c"
  let ?type = "type_at T i"
  have "list_all (is_digit 16) ?chunk" using Cons.prems by (simp add: padEnd_digits)
  then obtain d where d: "decodeData_word ?type ?chunk = Inr d"
    using decodeData_word_total [OF padEnd_nonempty] by blast
  let ?e = "\<lparr>dtype = ?type, raw = ''0x'' @ ?chunk, decoded = d\<rparr>"
  have step: "decodeData_loop T i (c # cs) acc = decodeData_loop T (i + 1) cs (acc @ [?e])"
    by (simp add: d Let_def)
  from Cons.prems have "\<forall>c \<in> set cs. list_all (is_digit 16) c" by simp
  from Cons.IH [OF this, of "i + 1" "acc @ [?e]"]
  obtain vs where vs: "decodeData_loop T (i + 1) cs (acc @ [?e]) = Inr ((acc @ [?e]) @ vs)"
      "length vs = length cs"
      "\<And>j. j < length cs \<Longrightarrow>
          raw (vs ! j) = ''0x'' @ padEnd 64 CHR ''0'' (cs ! j) \<and>
          dtype (vs ! j) = type_at T (i + 1 + j) \<and>
          decodeData_word (type_at T (i + 1 + j)) (padEnd 64 CHR ''0'' (cs ! j)) = Inr (decoded (vs ! j))"
    by blast
  have "raw ((?e # vs) ! j) = ''0x'' @ padEnd 64 CHR ''0'' ((c # cs) ! j) \<and>
        dtype ((?e # vs) ! j) = type_at T (i + j) \<and>
        decodeData_word (type_at T (i + j)) (padEnd 64 CHR ''0'' ((c # cs) ! j))
          = Inr (decoded ((?e # vs) ! j))" if "j < length (c # cs)" for j
  proof (cases j)
    case 0
    then show ?thesis by (simp add: d)
  next
    case (Suc k)
    with that have "k < length cs" by simp
    from vs(3) [OF this] show ?thesis by (simp add: Suc)
  qed
  moreover have "decodeData_loop T i (c # cs) acc = Inr (acc @ (?e # vs))"
    using step vs(1) by simp
  moreover have "length (?e # vs) = length (c # cs)" using vs(2) by simp
  ultimately show ?case by blast
qed

lemma type_at_beyond: "length T \<le> i \<Longrightarrow> type_at T i = ''unknown''"
  by (simp add: type_at_def)

lemma decodeData_word_unknown: "decodeData_word ''unknown'' chunk = decodeUint256 (''0x'' @ chunk)"
  by (simp add: decodeData_word_def startsWith_def)

lemma paramData_of_0x:
  "paramData_of (''0x'' @ h) = (if 8 \<le> length h then drop 8 h else h)"
  using slice_from_nonneg [of 8 h]
  by (simp add: paramData_of_def replace_first_0x_prefix del: replace_first.simps)

lemma digits_take_drop: "list_all P s \<Longrightarrow> list_all P (take n (drop k s))"
  by (auto simp: list_all_iff dest: in_set_takeD in_set_dropD)

lemma decodeData_strides:
  assumes "list_all (is_digit 16) p"
  shows "\<exists>vs. decodeData_loop T 0 (match_chunks p) [] = Inr vs \<and>
           length vs = (length p + 63) div 64 \<and>
           (\<forall>i < length vs.
              raw (vs ! i) = ''0x'' @ padEnd 64 CHR ''0'' (take 64 (drop (64 * i) p)) \<and>
              dtype (vs ! i) = type_at T i \<and>
              decodeData_word (type_at T i) (padEnd 64 CHR ''0'' (take 64 (drop (64 * i) p)))
                = Inr (decoded (vs ! i)))"
proof -
  let ?cs = "match_chunks p"
  have "\<forall>c \<in> set p. \<not> is_line_terminator c"
    using assms by (auto simp: list_all_iff hex_not_line_terminator)
  then have m: "length ?cs = (length p + 63) div 64"
      "\<And>i. i < (length p + 63) div 64 \<Longrightarrow> ?cs ! i = take 64 (drop (64 * i) p)"
    using match_chunks_strides [of p] by blast+
  have "list_all (is_digit 16) c" if "c \<in> set ?cs" for c
  proof -
    from that obtain i where "i < length ?cs" "c = ?cs ! i" by (metis in_set_conv_nth)
    with m show ?thesis using digits_take_drop [OF assms] by simp
  qed
  then have "\<forall>c \<in> set ?cs. list_all (is_digit 16) c" by blast
  from decodeData_loop_strides [OF this, of T 0 "[]"]
  obtain vs where vs: "decodeData_loop T 0 ?cs [] = Inr vs" "length vs = length ?cs"
      "\<And>j. j < length ?cs \<Longrightarrow>
          raw (vs ! j) = ''0x'' @ padEnd 64 CHR ''0'' (?cs ! j) \<and>
          dtype (vs ! j) = type_at T j \<and>
          decodeData_word (type_at T j) (padEnd 64 CHR ''0'' (?cs ! j)) = Inr (decoded (vs ! j))"
    by auto
  have "raw (vs ! i) = ''0x'' @ padEnd 64 CHR ''0'' (take 64 (drop (64 * i) p)) \<and>
        dtype (vs ! i) = type_at T i \<and>
        decodeData_word (type_at T i) (padEnd 64 CHR ''0'' (take 64 (drop (64 * i) p)))
          = Inr (decoded (vs ! i))" if "i < length vs" for i
  proof -
    from that vs(2) m(1) have i: "i < length ?cs" "i < (length p + 63) div 64" by simp_all
    from vs(3) [OF i(1)] m(2) [OF i(2)] show ?thesis by simp
  qed
  with vs(1) vs(2) m(1) show ?thesis by auto
qed

lemma strides_le: "(n + 63) div 64 \<le> i \<longleftrightarrow> n \<le> 64 * i" for n i :: nat
proof -
  have "(n + 63) div 64 < Suc i \<longleftrightarrow> n + 63 < Suc i * 64"
    by (rule div_less_iff_less_mult) simp
  moreover have "n + 63 < Suc i * 64 \<longleftrightarrow> n \<le> 64 * i" by auto
  ultimately show ?thesis by (simp only: less_Suc_eq_le)
qed

lemma stride_empty: "take 64 (drop (64 * i) s) = [] \<longleftrightarrow> (length s + 63) div 64 \<le> i"
  by (simp add: strides_le)

lemma min_Suc_diff: "i < K \<Longrightarrow> Suc (min a (K - Suc i)) = min (Suc a) (K - i)" for a i K :: nat
  by linarith

lemma parseLogData_loop_strides:
  assumes "list_all (is_digit 16) c"
  shows "\<exists>vs. parseLogData_loop c i T acc = Inr (acc @ vs) \<and>
           length vs = min (length T) ((length c + 63) div 64 - i) \<and>
           (\<forall>j < length vs.
              parseLogData_word (T ! j) (take 64 (drop (64 * (i + j)) c)) = Inr (vs ! j))"
proof (induction T arbitrary: i acc)
  case Nil
  then show ?case by simp
next
  case (Cons type T)
  let ?chunk = "take 64 (drop (64 * i) c)"
  let ?K = "(length c + 63) div 64"
  have chunk: "slice (int i * 64) ((int i + 1) * 64) c = ?chunk" by (rule slice_stride)
  show ?case
  proof (cases "?chunk = []")
    case True
    then have "?K - i = 0" unfolding stride_empty by simp
    moreover have "parseLogData_loop c i (type # T) acc = Inr acc"
      by (simp only: parseLogData_loop.simps chunk Let_def True) simp
    ultimately show ?thesis by simp
  next
    case False
    then have more: "i < ?K" unfolding stride_empty by simp
    have "list_all (is_digit 16) ?chunk" using assms by (rule digits_take_drop)
    then obtain v where v: "parseLogData_word type ?chunk = Inr v"
      using parseLogData_word_total [OF False] by blast
    have step: "parseLogData_loop c i (type # T) acc = parseLogData_loop c (i + 1) T (acc @ [v])"
      by (simp only: parseLogData_loop.simps chunk Let_def False if_False v sum.case)
    from Cons.IH [of "i + 1" "acc @ [v]"]
    obtain vs where vs: "parseLogData_loop c (i + 1) T (acc @ [v]) = Inr ((acc @ [v]) @ vs)"
        "length vs = min (length T) (?K - (i + 1))"
        "\<And>j. j < length vs \<Longrightarrow>
            parseLogData_word (T ! j) (take 64 (drop (64 * (i + 1 + j)) c)) = Inr (vs ! j)"
      by blast
    have "parseLogData_word ((type # T) ! j) (take 64 (drop (64 * (i + j)) c)) = Inr ((v # vs) ! j)"
      if "j < length (v # vs)" for j
    proof (cases j)
      case 0
      then show ?thesis by (simp add: v)
    next
      case (Suc k)
      with that have "k < length vs" by simp
      from vs(3) [OF this] show ?thesis by (simp add: Suc)
    qed
    moreover have "parseLogData_loop c i (type # T) acc = Inr (acc @ (v # vs))"
      using step vs(1) by simp
    moreover have "length (v # vs) = min (length (type # T)) (?K - i)"
      using vs(2) min_Suc_diff [OF more, of "length T"] by simp
    ultimately show ?thesis by blast
  qed
qed

lemma parseLogData_0x:
  "h \<noteq> [] \<Longrightarrow> parseLogData (''0x'' @ h) T = parseLogData_loop h 0 T []"
  by (simp add: parseLogData_def replace_first_0x_prefix del: replace_first.simps)

subsection \<open>Numbers below \<open>2^53\<close> and the layout of a string return value\<close>

lemma bit_length_bound: "n < 2 ^ k \<Longrightarrow> bit_length n \<le> k"
proof (induction k arbitrary: n)
  case 0
  then show ?case by (subst bit_length.simps) simp
next
  case (Suc k)
  show ?case
  proof (cases "n = 0")
    case True
    then show ?thesis by (subst bit_length.simps) simp
  next
    case False
    from Suc.prems have "n div 2 < 2 ^ k" by simp
    then have "bit_length (n div 2) \<le> k" by (rule Suc.IH)
    with False show ?thesis by (subst bit_length.simps) simp
  qed
qed

lemma round_binary64_small: "n < 2 ^ 53 \<Longrightarrow> round_binary64 n = n"
  using bit_length_bound [of n 53] by (simp add: round_binary64_def Let_def)

lemma to_Number_small: "n < 2 ^ 53 \<Longrightarrow> to_Number (int n) = Finite (int n)"
proof -
  assume n: "n < 2 ^ 53"
  have "(2::nat) ^ 53 \<le> 2 ^ 1024" by (rule power_increasing) simp_all
  with n have "\<not> 2 ^ 1024 \<le> n" by linarith
  with n show ?thesis by (simp add: to_Number_def round_binary64_small Let_def)
qed

lemma not_hex_digit:
  "\<not> is_digit 16 CHR ''x''" "\<not> is_digit 16 CHR ''X''" "\<not> is_digit 16 CHR ''-''"
  "\<not> is_digit 16 CHR ''+''"
  by (simp_all add: is_digit_def digit_val_def)

lemma digits_no_sign_prefix:
  assumes "list_all (is_digit 16) w"
  shows "\<not> startsWith w ''-''" "\<not> startsWith w ''+''" "\<not> startsWith w ''0x''"
    "\<not> startsWith w ''0X''"
proof -
  have all: "\<forall>c \<in> set w. is_digit 16 c" using assms by (simp add: list_all_iff)
  have "\<not> startsWith w p" if "c \<in> set p" "\<not> is_digit 16 c" for p c
    using startsWith_mem [OF _ that(1) all] that(2) by blast
  from this [of "CHR ''-''" "''-''"] this [of "CHR ''+''" "''+''"] this [of "CHR ''x''" "''0x''"]
    this [of "CHR ''X''" "''0X''"]
  show "\<not> startsWith w ''-''" "\<not> startsWith w ''+''" "\<not> startsWith w ''0x''"
    "\<not> startsWith w ''0X''"
    by (simp_all add: not_hex_digit)
qed

lemma parseInt16_digits:
  assumes "list_all (is_digit 16) w" "parse_nat 16 w = Some n" "n < 2 ^ 53"
  shows "parseInt16 w = Finite (int n)"
proof -
  have ne: "w \<noteq> []" using assms(2) by (auto simp: parse_nat_def)
  then have "is_digit 16 (hd w)" using assms(1) by (cases w) simp_all
  then have "\<not> is_space (hd w)" by (rule is_digit_not_space)
  with ne have sp: "dropWhile is_space w = w" by (cases w) simp_all
  have tw: "takeWhile (is_digit 16) w = w"
    using assms(1) by (simp add: takeWhile_eq_all_conv list_all_iff)
  show ?thesis
    using digits_no_sign_prefix [OF assms(1)] assms(2) to_Number_small [OF assms(3)]
    by (simp add: parseInt16_def sp tw Let_def)
qed

lemma slice_num_Finite:
  "0 \<le> a \<Longrightarrow> a \<le> b \<Longrightarrow> slice_num (Finite a) (Finite b) s = take (nat (b - a)) (drop (nat a) s)"
  by (simp add: slice_num_def slice_nonneg)

lemma slice_num_nat:
  "a \<le> b \<Longrightarrow> slice_num (Finite (int a)) (Finite (int b)) s = take (b - a) (drop a s)"
  using slice_num_Finite [of "int a" "int b" s] by (simp add: of_nat_diff [symmetric] del: of_nat_diff)

lemma num_times_small: "n * k < 2 ^ 53 \<Longrightarrow> num_times (Finite (int n)) (int k) = Finite (int (n * k))"
  using to_Number_small [of "n * k"] by simp

lemma num_add_small:
  "n + k < 2 ^ 53 \<Longrightarrow> num_add (Finite (int n)) (Finite (int k)) = Finite (int (n + k))"
  using to_Number_small [of "n + k"] by simp

lemma replace_first_0x_digits: "replace_first ''0x'' r (''0x'' @ h) = r @ h"
  using replace_first_0x_prefix [of r h] by simp

lemma decode_tokenURI_layout:
  assumes hex: "list_all (is_digit 16) h" and long: "128 \<le> length h" and js: "length h < 2 ^ 53"
    and off: "parse_nat 16 (take 64 h) = Some off" "2 * off + 64 \<le> length h"
    and len: "parse_nat 16 (take 64 (drop (2 * off) h)) = Some len"
      "2 * off + 64 + 2 * len \<le> length h"
  shows "decode_tokenURI (''0x'' @ h)
           = toString_utf8 (Buffer_from_hex (take (2 * len) (drop (2 * off + 64) h)))"
proof -
  have w0: "slice 0 64 h = take 64 h" using slice_nonneg [of 0 64 h] by simp
  have "off < 2 ^ 53" using off(2) js by linarith
  then have p0: "parseInt16 (take 64 h) = Finite (int off)"
    using digits_take_drop [OF hex, of 64 0] off(1) by (intro parseInt16_digits) simp_all
  have "off * 2 < 2 ^ 53" using off(2) js by linarith
  then have offset: "num_times (Finite (int off)) 2 = Finite (int (off * 2))"
    using num_times_small [of off 2] by simp
  have "off * 2 + 64 < 2 ^ 53" using off(2) js by linarith
  then have o64: "num_add (Finite (int (off * 2))) (Finite 64) = Finite (int (off * 2 + 64))"
    using num_add_small [of "off * 2" 64] by simp
  have w1: "slice_num (Finite (int (off * 2))) (Finite (int (off * 2 + 64))) h
              = take 64 (drop (2 * off) h)"
    using slice_num_nat [of "off * 2" "off * 2 + 64" h] by (simp add: mult.commute)
  have "len < 2 ^ 53" using len(2) js by linarith
  then have p1: "parseInt16 (take 64 (drop (2 * off) h)) = Finite (int len)"
    using digits_take_drop [OF hex, of 64 "2 * off"] len(1) by (intro parseInt16_digits) simp_all
  have "len * 2 < 2 ^ 53" using len(2) js by linarith
  then have l2: "num_times (Finite (int len)) 2 = Finite (int (len * 2))"
    using num_times_small [of len 2] by simp
  have "off * 2 + 64 + len * 2 < 2 ^ 53" using len(2) js by linarith
  then have e: "num_add (Finite (int (off * 2 + 64))) (Finite (int (len * 2)))
                  = Finite (int (off * 2 + 64 + len * 2))"
    using num_add_small [of "off * 2 + 64" "len * 2"] by simp
  have w2: "slice_num (Finite (int (off * 2 + 64))) (Finite (int (off * 2 + 64 + len * 2))) h
              = take (2 * len) (drop (2 * off + 64) h)"
    using slice_num_nat [of "off * 2 + 64" "off * 2 + 64 + len * 2" h] by (simp add: mult.commute)
  have guard: "''0x'' @ h \<noteq> []" "''0x'' @ h \<noteq> ''0x''" "2 < length (''0x'' @ h)"
    using long by auto
  have hs: "replace_first ''0x'' [] (''0x'' @ h) = h"
    using replace_first_0x_digits [of "[]" h] by simp
  show ?thesis
    by (simp only: decode_tokenURI_def hs guard long Let_def w0 p0 offset o64 w1 p1 l2 e w2
        if_True simp_thms)
qed

lemma utf8_decode_ascii: "list_all (\<lambda>b. b < 128) bs \<Longrightarrow> utf8_decode bs = bs"
  by (induction bs) simp_all

lemma toString_utf8_ascii: "list_all (\<lambda>b. b < 128) bs \<Longrightarrow> toString_utf8 bs = map char_of bs"
  by (simp add: toString_utf8_def utf8_decode_ascii)

lemma decode_name_layout:
  assumes hex: "list_all (is_digit 16) h" and long: "128 \<le> length h" and js: "length h < 2 ^ 53"
    and len: "parse_nat 16 (take 64 (drop 64 h)) = Some len" "128 + 2 * len \<le> length h"
  shows "decode_name (''0x'' @ h)
           = remove_nulls (toString_utf8 (Buffer_from_hex (take (2 * len) (drop 128 h))))"
proof -
  have w1: "slice 64 128 h = take 64 (drop 64 h)" using slice_nonneg [of 64 128 h] by simp
  have "len < 2 ^ 53" using len(2) js by linarith
  then have p1: "parseInt16 (take 64 (drop 64 h)) = Finite (int len)"
    using digits_take_drop [OF hex, of 64 64] len(1) by (intro parseInt16_digits) simp_all
  have "len * 2 < 2 ^ 53" using len(2) js by linarith
  then have l2: "num_times (Finite (int len)) 2 = Finite (int (len * 2))"
    using num_times_small [of len 2] by simp
  have "128 + len * 2 < 2 ^ 53" using len(2) js by linarith
  then have e: "num_add (Finite 128) (Finite (int (len * 2))) = Finite (int (128 + len * 2))"
    using num_add_small [of 128 "len * 2"] by simp
  have w2: "slice_num (Finite 128) (Finite (int (128 + len * 2))) h = take (2 * len) (drop 128 h)"
    using slice_num_nat [of 128 "128 + len * 2" h] by (simp add: mult.commute)
  have guard: "''0x'' @ h \<noteq> []" "''0x'' @ h \<noteq> ''0x''" "2 < length (''0x'' @ h)"
    using long by auto
  have hs: "replace_first ''0x'' [] (''0x'' @ h) = h"
    using replace_first_0x_digits [of "[]" h] by simp
  show ?thesis
    by (simp only: decode_name_def hs guard long Let_def w1 p1 l2 e w2 if_True simp_thms)
qed

lemma is_digit_val: "is_digit 16 c \<Longrightarrow> \<exists>v < 16. digit_val c = Some v"
  by (cases "digit_val c") (simp_all add: is_digit_def)

lemma parseInt16_pair:
  assumes "digit_val a = Some x" "x < 16" "digit_val b = Some y" "y < 16"
  shows "parseInt16 [a, b] = Finite (int (16 * x + y))"
proof -
  have "list_all (is_digit 16) [a, b]" using assms by (simp add: is_digit_def)
  moreover have "parse_nat 16 [a, b] = Some (16 * x + y)"
    using assms by (simp add: parse_nat_def mult.commute)
  moreover have "16 * x + y < 2 ^ 53" using assms by simp
  ultimately show ?thesis by (rule parseInt16_digits)
qed

lemma fromCharCode_ascii_nat:
  "fromCharCode_ascii (Finite (int n)) = map char_of (filter (\<lambda>b. 0 < b \<and> b < 128) [n])"
  by (simp add: fromCharCode_ascii_def)

lemma decodeString_loop_bytes:
  "list_all (is_digit 16) h \<Longrightarrow> even (length h) \<Longrightarrow>
     decodeString_loop h = map char_of (filter (\<lambda>b. 0 < b \<and> b < 128) (Buffer_from_hex h))"
proof (induction h rule: decodeString_loop.induct)
  case (1 a b cs)
  from "1.prems" obtain x y where xy: "digit_val a = Some x" "x < 16" "digit_val b = Some y" "y < 16"
    using is_digit_val [of a] is_digit_val [of b] by auto
  have rest: "decodeString_loop cs
                = map char_of (filter (\<lambda>b. 0 < b \<and> b < 128) (Buffer_from_hex cs))"
    using "1.IH" "1.prems" by simp
  have "fromCharCode_ascii (Finite (int (16 * x + y)))
          = map char_of (filter (\<lambda>b. 0 < b \<and> b < 128) [16 * x + y])"
    by (rule fromCharCode_ascii_nat)
  then show ?case
    by (simp only: decodeString_loop.simps parseInt16_pair [OF xy] Buffer_from_hex.simps xy
        prod.case option.case rest filter.simps list.map map_append filter_append append.simps
        split: if_split) simp
next
  case (2 a)
  then show ?case by simp
next
  case 3
  then show ?case by simp
qed

lemma char_of_not_null: "0 < b \<Longrightarrow> b < 256 \<Longrightarrow> char_of b \<noteq> CHR 0x00" for b :: nat
proof
  assume b: "0 < b" "b < 256" and "char_of b = CHR 0x00"
  then have "of_char (char_of b) = (of_char (CHR 0x00) :: nat)" by simp
  with b show False by simp
qed

lemma remove_nulls_ascii:
  "remove_nulls (map char_of (filter (\<lambda>b. 0 < b \<and> b < 128) bs))
     = map char_of (filter (\<lambda>b. 0 < b \<and> b < 128) bs)" for bs :: "nat list"
  unfolding remove_nulls_def by (induction bs) (simp_all add: char_of_not_null)

lemma decodeString_bytes:
  assumes "list_all (is_digit 16) h" "even (length h)" "h \<noteq> []"
  shows "decodeString (''0x'' @ h)
           = trim (map char_of (filter (\<lambda>b. 0 < b \<and> b < 128) (Buffer_from_hex h)))"
proof -
  have hs: "replace_first ''0x'' [] (''0x'' @ h) = h"
    using replace_first_0x_digits [of "[]" h] by simp
  have guard: "''0x'' @ h \<noteq> []" "''0x'' @ h \<noteq> ''0x''" using assms(3) by auto
  show ?thesis
    by (simp only: decodeString_def hs guard Let_def decodeString_loop_bytes [OF assms(1,2)]
        remove_nulls_ascii if_False simp_thms)
qed

section \<open>Claims\<close>

text \<open>
  C1. Every parameter of a static type is to add one word of 64 hex characters. The
  action \<open>encodeFunction\<close> does so for every type that begins with \<^verbatim>\<open>uint\<close> or \<^verbatim>\<open>int\<close>,
  but \<open>encodeFunctionCall\<close> compares the type with \<^verbatim>\<open>uint256\<close>, \<^verbatim>\<open>uint\<close> and \<^verbatim>\<open>int256\<close>
  only: a \<^verbatim>\<open>uint8\<close> or an \<^verbatim>\<open>int\<close> parameter adds nothing, and the call data is the bare
  selector. The \<^verbatim>\<open>balanceOf\<close> example of the claim is encoded as it says.
\<close>

theorem encodeFunctionCall_skips_uint8:
  "encodeFunctionCall ''0x70a08231'' [\<lparr>ptype = ''uint8'', pvalue = JString ''5''\<rparr>]
     = Inr ''0x70a08231'' \<and>
   encodeFunctionCall ''0x70a08231'' [\<lparr>ptype = ''int'', pvalue = JString ''5''\<rparr>]
     = Inr ''0x70a08231'' \<and>
   encodeFunction ''0x70a08231'' [\<lparr>ptype = ''uint8'', pvalue = JString ''5''\<rparr>]
     = Inr ''0x70a082310000000000000000000000000000000000000000000000000000000000000005'' \<and>
   encodeFunctionCall ''0x70a08231'' [\<lparr>ptype = ''uint256'', pvalue = JString ''5''\<rparr>]
     = Inr ''0x70a082310000000000000000000000000000000000000000000000000000000000000005'' \<and>
   encodeFunctionCall ''0x70a08231''
       [\<lparr>ptype = ''address'', pvalue = JString ''0x5C7F8A570d578ED84E63fdFA7b1eE72dEae1AE23''\<rparr>]
     = Inr ''0x70a082310000000000000000000000005c7f8a570d578ed84e63fdfa7b1ee72deae1ae23''"
  by (simp add: js_eval)

text \<open>
  C2, as the claim states it, fails on \<open>parseLogData\<close>: it interprets a trailing shorter
  word as it is, without padding, and it stops when the declared types run out, so that a
  word beyond them is not decoded at all.
\<close>

theorem parseLogData_counterexample:
  "parseLogData ''0xab'' [''bytes32''] = Inr [''0xab''] \<and>
   parseLogData
     (''0x'' @ ''0000000000000000000000000000000000000000000000000000000000000001''
            @ ''0000000000000000000000000000000000000000000000000000000000000002'')
     [''uint256''] = Inr [''1'']"
  by (simp add: js_eval)

text \<open>
  C2, amended. For a blob \<^verbatim>\<open>0x\<close> followed by hex digits \<open>h\<close>: the action \<open>decodeData\<close> first
  takes a selector of 8 characters off when there are that many, then walks the rest \<open>p\<close>
  in strides of 64 characters in order and returns one value for each, the last stride
  padded on the right with \<^verbatim>\<open>0\<close> to 64 characters; word \<open>i\<close> is decoded by type \<open>i\<close>, and a
  word beyond the declared types as an unsigned integer. \<open>parseLogData\<close> walks \<open>h\<close> in the
  same strides, without padding, and returns one value per declared type as long as there
  are words: the number of values is the smaller of the number of types and of words.
\<close>

theorem decode_strides:
  assumes "list_all (is_digit 16) h" and "p = (if 8 \<le> length h then drop 8 h else h)"
  shows "(\<exists>vs. decodeData (''0x'' @ h) T = Inr vs \<and>
            length vs = (length p + 63) div 64 \<and>
            (\<forall>i < length vs.
               raw (vs ! i) = ''0x'' @ padEnd 64 CHR ''0'' (take 64 (drop (64 * i) p)) \<and>
               dtype (vs ! i) = type_at T i \<and>
               decodeData_word (type_at T i) (padEnd 64 CHR ''0'' (take 64 (drop (64 * i) p)))
                 = Inr (decoded (vs ! i)) \<and>
               (length T \<le> i \<longrightarrow> decodeUint256 (raw (vs ! i)) = Inr (decoded (vs ! i))))) \<and>
         (h \<noteq> [] \<longrightarrow>
            (\<exists>ws. parseLogData (''0x'' @ h) T = Inr ws \<and>
               length ws = min (length T) ((length h + 63) div 64) \<and>
               (\<forall>i < length ws.
                  parseLogData_word (T ! i) (take 64 (drop (64 * i) h)) = Inr (ws ! i))))"
proof (intro conjI impI)
  have "list_all (is_digit 16) p" using assms by (simp add: list_all_iff) (meson in_set_dropD)
  from decodeData_strides [OF this, of T]
  obtain vs where vs: "decodeData_loop T 0 (match_chunks p) [] = Inr vs"
      "length vs = (length p + 63) div 64"
      "\<And>i. i < length vs \<Longrightarrow>
          raw (vs ! i) = ''0x'' @ padEnd 64 CHR ''0'' (take 64 (drop (64 * i) p)) \<and>
          dtype (vs ! i) = type_at T i \<and>
          decodeData_word (type_at T i) (padEnd 64 CHR ''0'' (take 64 (drop (64 * i) p)))
            = Inr (decoded (vs ! i))"
    by blast
  have p: "paramData_of (''0x'' @ h) = p" using assms(2) by (simp only: paramData_of_0x)
  have "decodeUint256 (raw (vs ! i)) = Inr (decoded (vs ! i))" if "i < length vs" "length T \<le> i" for i
    using vs(3) [OF that(1)] type_at_beyond [OF that(2)] by (simp add: decodeData_word_unknown)
  with vs show "\<exists>vs. decodeData (''0x'' @ h) T = Inr vs \<and>
            length vs = (length p + 63) div 64 \<and>
            (\<forall>i < length vs.
               raw (vs ! i) = ''0x'' @ padEnd 64 CHR ''0'' (take 64 (drop (64 * i) p)) \<and>
               dtype (vs ! i) = type_at T i \<and>
               decodeData_word (type_at T i) (padEnd 64 CHR ''0'' (take 64 (drop (64 * i) p)))
                 = Inr (decoded (vs ! i)) \<and>
               (length T \<le> i \<longrightarrow> decodeUint256 (raw (vs ! i)) = Inr (decoded (vs ! i))))"
    unfolding decodeData_def p by blast
next
  assume "h \<noteq> []"
  then have "parseLogData (''0x'' @ h) T = parseLogData_loop h 0 T []" by (rule parseLogData_0x)
  with parseLogData_loop_strides [OF assms(1), of 0 T "[]"]
  show "\<exists>ws. parseLogData (''0x'' @ h) T = Inr ws \<and>
               length ws = min (length T) ((length h + 63) div 64) \<and>
               (\<forall>i < length ws.
                  parseLogData_word (T ! i) (take 64 (drop (64 * i) h)) = Inr (ws ! i))"
    by simp
qed

theorem decode_strides_witness:
  "list_all (is_digit 16)
     ''00000000000000000000000000000000000000000000000000000000000000000000000100'' \<and>
   (\<exists>vs. decodeData
           ''0x00000000000000000000000000000000000000000000000000000000000000000000000100''
           [''uint256''] = Inr vs \<and> length vs = 2) \<and>
   decodeData ''0x00000000000000000000000000000000000000000000000000000000000000000000000100''
     [''uint256'']
     = Inr [\<lparr>dtype = ''uint256'',
              raw = ''0x0000000000000000000000000000000000000000000000000000000000000001'',
              decoded = ''1''\<rparr>,
            \<lparr>dtype = ''unknown'',
              raw = ''0x0000000000000000000000000000000000000000000000000000000000000000'',
              decoded = ''0''\<rparr>] \<and>
   parseLogData ''0x00000000000000000000000000000000000000000000000000000000000000000000000100''
     [''uint256''] = Inr [''0'']"
proof -
  let ?h = "''00000000000000000000000000000000000000000000000000000000000000000000000100''"
  have hex: "list_all (is_digit 16) ?h" by (simp add: is_digit_def digit_val_def)
  have len: "(length (if 8 \<le> length ?h then drop 8 ?h else ?h) + 63) div 64 = 2" by simp
  from decode_strides [OF hex refl, of "[''uint256'']"]
  obtain vs where "decodeData (''0x'' @ ?h) [''uint256''] = Inr vs"
    "length vs = (length (if 8 \<le> length ?h then drop 8 ?h else ?h) + 63) div 64"
    by blast
  then have a: "\<exists>vs. decodeData (''0x'' @ ?h) [''uint256''] = Inr vs \<and> length vs = 2"
    by (simp only: len) blast
  have b: "decodeData (''0x'' @ ?h) [''uint256'']
     = Inr [\<lparr>dtype = ''uint256'',
              raw = ''0x0000000000000000000000000000000000000000000000000000000000000001'',
              decoded = ''1''\<rparr>,
            \<lparr>dtype = ''unknown'',
              raw = ''0x0000000000000000000000000000000000000000000000000000000000000000'',
              decoded = ''0''\<rparr>]"
    by (simp add: js_eval)
  have c: "parseLogData (''0x'' @ ?h) [''uint256''] = Inr [''0'']"
    by (simp add: js_eval)
  from hex a b c show ?thesis by simp
qed

text \<open>
  C3. \<open>weiToCro\<close> is to be the exact quotient and remainder by \<open>10^d\<close> for every \<open>d\<close>.
  The divisor is \<^verbatim>\<open>BigInt(10 ** decimals)\<close>, a power taken on Numbers: with 24 decimals it is
  \<open>10^24 - 16777216\<close>, and one whole unit is printed with a fractional part.
\<close>

theorem weiToCro_24_decimals:
  "weiToCro (JString ''1000000000000000000000000'') 24 = Inr ''1.000000000000000016777216'' \<and>
   pow10 24 = Finite 999999999999999983222784"
  by (simp add: js_eval)

text \<open>
  C4. Converting \<open>10^24\<close> wei to the unit of 24 decimals and back does not return
  \<open>10^24\<close>: the defect of C3, seen through \<open>croToWei\<close>, which is exact.
\<close>

theorem croToWei_weiToCro_24_decimals:
  "(case weiToCro (JString ''1000000000000000000000000'') 24 of
      Inl e \<Rightarrow> Inl e
    | Inr cro \<Rightarrow> croToWei (JString cro) 24) = Inr ''1000000000000000016777216''"
  by (simp add: js_eval)

text \<open>
  C5. A \<^verbatim>\<open>bool\<close> parameter is to be encoded as 1 for \<^verbatim>\<open>true\<close>, \<^verbatim>\<open>"true"\<close>, \<^verbatim>\<open>1\<close>, \<^verbatim>\<open>"1"\<close>
  and as 0 for anything else. \<open>encodeFunctionCall\<close> tests the truthiness of the value, so
  the texts \<^verbatim>\<open>"false"\<close> and \<^verbatim>\<open>"0"\<close> are encoded as 1; the action \<open>encodeFunction\<close> compares
  with the two texts only, so the boolean \<^verbatim>\<open>true\<close> and the number \<^verbatim>\<open>1\<close> of a parsed JSON
  parameter list are encoded as 0.
\<close>

theorem encode_bool_false_text:
  "encodeFunctionCall ''0x'' [\<lparr>ptype = ''bool'', pvalue = JString ''false''\<rparr>]
     = Inr ''0x0000000000000000000000000000000000000000000000000000000000000001'' \<and>
   encodeFunctionCall ''0x'' [\<lparr>ptype = ''bool'', pvalue = JString ''0''\<rparr>]
     = Inr ''0x0000000000000000000000000000000000000000000000000000000000000001'' \<and>
   encodeFunction ''0x'' [\<lparr>ptype = ''bool'', pvalue = JString ''false''\<rparr>]
     = Inr ''0x0000000000000000000000000000000000000000000000000000000000000000'' \<and>
   encodeFunction ''0x'' [\<lparr>ptype = ''bool'', pvalue = JBool True\<rparr>]
     = Inr ''0x0000000000000000000000000000000000000000000000000000000000000000'' \<and>
   encodeFunction ''0x'' [\<lparr>ptype = ''bool'', pvalue = JNumber (Finite 1)\<rparr>]
     = Inr ''0x0000000000000000000000000000000000000000000000000000000000000000''"
  by (simp add: js_eval)

text \<open>
  C6. \<open>hexToDecimal\<close> is to read hex digits with or without the prefix \<^verbatim>\<open>0x\<close>. With
  the prefix it does. Without it the text goes to \<^verbatim>\<open>BigInt\<close> as it is, which reads
  \<^verbatim>\<open>10\<close> as the decimal ten and rejects \<^verbatim>\<open>ff\<close>.
\<close>

theorem hexToDecimal_without_prefix:
  "hexToDecimal ''10'' = Inr ''10'' \<and> hexToDecimal ''ff'' = Inl SyntaxError \<and>
   hexToDecimal ''0x10'' = Inr ''16'' \<and> hexToDecimal ''0xff'' = Inr ''255''"
  by (simp add: js_eval)

text \<open>
  C7. For every non-negative integer \<open>n\<close>, converting its decimal text to hex with
  \<open>decimalToHex\<close> and back with \<open>hexToDecimal\<close> gives the decimal text of \<open>n\<close> again;
  neither step throws.
\<close>

theorem hex_decimal_roundtrip:
  "(case decimalToHex (JString (BigInt_toString 10 (int n))) of
      Inl e \<Rightarrow> Inl e
    | Inr h \<Rightarrow> hexToDecimal h) = Inr (BigInt_toString 10 (int n))"
  using render_nat_nonempty [of 16 n]
  by (simp add: decimalToHex_def hexToDecimal_def BigInt_toString_def
      StringToBigInt_decimal StringToBigInt_hex [simplified])

text \<open>
  C8, as the claim states it, fails on each of the three decoders. The token URI is
  neither stripped of null bytes nor trimmed: a payload that begins with a space keeps it.
  The name decode does not read the first word: with the offset word \<^verbatim>\<open>0x40\<close> it still
  takes the second word as the length and the text from character 128. \<open>decodeString\<close>
  reads no offset and no length: the bytes of the offset and length words themselves come
  out as characters.
\<close>

theorem single_string_decoders_counterexample:
  "decode_tokenURI
     (''0x'' @ ''0000000000000000000000000000000000000000000000000000000000000020''
            @ ''0000000000000000000000000000000000000000000000000000000000000002''
            @ ''2041000000000000000000000000000000000000000000000000000000000000'') = '' A'' \<and>
   decode_name
     (''0x'' @ ''0000000000000000000000000000000000000000000000000000000000000040''
            @ ''0000000000000000000000000000000000000000000000000000000000000002''
            @ ''0000000000000000000000000000000000000000000000000000000000000001''
            @ ''4100000000000000000000000000000000000000000000000000000000000000'') = [] \<and>
   decodeString
     (''0x'' @ ''0000000000000000000000000000000000000000000000000000000000000020''
            @ ''0000000000000000000000000000000000000000000000000000000000000001''
            @ ''4100000000000000000000000000000000000000000000000000000000000000'')
     = [CHR 0x01, CHR ''A'']"
proof -
  let ?h = "''0000000000000000000000000000000000000000000000000000000000000020''
            @ ''0000000000000000000000000000000000000000000000000000000000000002''
            @ ''2041000000000000000000000000000000000000000000000000000000000000''"
  have "list_all (is_digit 16) ?h" by (simp add: is_digit_def digit_val_def)
  moreover have "128 \<le> length ?h" "length ?h < 2 ^ 53" by simp_all
  moreover have "parse_nat 16 (take 64 ?h) = Some 32" "2 * 32 + 64 \<le> length ?h"
    "parse_nat 16 (take 64 (drop (2 * 32) ?h)) = Some 2" "2 * 32 + 64 + 2 * 2 \<le> length ?h"
    by (simp_all add: parse_nat_def digit_val_def)
  ultimately have "decode_tokenURI (''0x'' @ ?h)
      = toString_utf8 (Buffer_from_hex (take (2 * 2) (drop (2 * 32 + 64) ?h)))"
    by (rule decode_tokenURI_layout)
  moreover have "toString_utf8 (Buffer_from_hex (take (2 * 2) (drop (2 * 32 + 64) ?h))) = '' A''"
    by (simp add: toString_utf8_def digit_val_def char_of_def bit_iff_odd)
  ultimately have a: "decode_tokenURI (''0x'' @ ?h) = '' A''" by (simp only:)
  have b: "decode_name
     (''0x'' @ ''0000000000000000000000000000000000000000000000000000000000000040''
            @ ''0000000000000000000000000000000000000000000000000000000000000002''
            @ ''0000000000000000000000000000000000000000000000000000000000000001''
            @ ''4100000000000000000000000000000000000000000000000000000000000000'') = []"
    by (simp add: js_eval char_of_def bit_iff_odd)
  have c: "decodeString
     (''0x'' @ ''0000000000000000000000000000000000000000000000000000000000000020''
            @ ''0000000000000000000000000000000000000000000000000000000000000001''
            @ ''4100000000000000000000000000000000000000000000000000000000000000'')
     = [CHR 0x01, CHR ''A'']"
    by (simp add: js_eval char_of_def bit_iff_odd)
  show ?thesis by (simp only: a b c simp_thms)
qed

text \<open>
  C8, amended. On a blob \<^verbatim>\<open>0x\<close> followed by at least 128 hex digits \<open>h\<close>, with the words and
  the payload inside the blob and a payload of ASCII bytes: the token-URI decode reads the
  first word as a byte offset \<open>off\<close>, the word at character \<open>2 * off\<close> as the byte length
  \<open>len\<close>, and returns the \<open>2 * len\<close> characters after that word as text, with nothing
  dropped or trimmed; the name and symbol decode reads the second word as the byte length
  \<open>n\<close> whatever the first word is, takes \<open>2 * n\<close> characters from character 128 as text and
  drops the null bytes, without trimming; \<open>decodeString\<close> turns every byte of the whole
  blob between 1 and 127 into a character, drops every other byte, and trims white space.
\<close>

theorem single_string_decoders:
  assumes "list_all (is_digit 16) h" "128 \<le> length h" "length h < 2 ^ 53"
  shows "(parse_nat 16 (take 64 h) = Some off \<and> 2 * off + 64 \<le> length h \<and>
          parse_nat 16 (take 64 (drop (2 * off) h)) = Some len \<and>
          2 * off + 64 + 2 * len \<le> length h \<and>
          list_all (\<lambda>b. b < 128) (Buffer_from_hex (take (2 * len) (drop (2 * off + 64) h))) \<longrightarrow>
            decode_tokenURI (''0x'' @ h)
              = map char_of (Buffer_from_hex (take (2 * len) (drop (2 * off + 64) h)))) \<and>
         (parse_nat 16 (take 64 (drop 64 h)) = Some n \<and> 128 + 2 * n \<le> length h \<and>
          list_all (\<lambda>b. b < 128) (Buffer_from_hex (take (2 * n) (drop 128 h))) \<longrightarrow>
            decode_name (''0x'' @ h)
              = remove_nulls (map char_of (Buffer_from_hex (take (2 * n) (drop 128 h))))) \<and>
         (even (length h) \<longrightarrow>
            decodeString (''0x'' @ h)
              = trim (map char_of (filter (\<lambda>b. 0 < b \<and> b < 128) (Buffer_from_hex h))))"
proof (intro conjI impI)
  assume a: "parse_nat 16 (take 64 h) = Some off \<and> 2 * off + 64 \<le> length h \<and>
          parse_nat 16 (take 64 (drop (2 * off) h)) = Some len \<and>
          2 * off + 64 + 2 * len \<le> length h \<and>
          list_all (\<lambda>b. b < 128) (Buffer_from_hex (take (2 * len) (drop (2 * off + 64) h)))"
  then have "decode_tokenURI (''0x'' @ h)
               = toString_utf8 (Buffer_from_hex (take (2 * len) (drop (2 * off + 64) h)))"
    using decode_tokenURI_layout [OF assms] by blast
  moreover have "toString_utf8 (Buffer_from_hex (take (2 * len) (drop (2 * off + 64) h)))
               = map char_of (Buffer_from_hex (take (2 * len) (drop (2 * off + 64) h)))"
    using a by (intro toString_utf8_ascii) blast
  ultimately show "decode_tokenURI (''0x'' @ h)
               = map char_of (Buffer_from_hex (take (2 * len) (drop (2 * off + 64) h)))"
    by (rule trans)
next
  assume b: "parse_nat 16 (take 64 (drop 64 h)) = Some n \<and> 128 + 2 * n \<le> length h \<and>
          list_all (\<lambda>b. b < 128) (Buffer_from_hex (take (2 * n) (drop 128 h)))"
  then have "decode_name (''0x'' @ h)
               = remove_nulls (toString_utf8 (Buffer_from_hex (take (2 * n) (drop 128 h))))"
    using decode_name_layout [OF assms] by blast
  moreover have "toString_utf8 (Buffer_from_hex (take (2 * n) (drop 128 h)))
               = map char_of (Buffer_from_hex (take (2 * n) (drop 128 h)))"
    using b by (intro toString_utf8_ascii) blast
  ultimately show "decode_name (''0x'' @ h)
               = remove_nulls (map char_of (Buffer_from_hex (take (2 * n) (drop 128 h))))"
    by (simp only:)
next
  assume "even (length h)"
  moreover have "h \<noteq> []" using assms(2) by auto
  ultimately show "decodeString (''0x'' @ h)
               = trim (map char_of (filter (\<lambda>b. 0 < b \<and> b < 128) (Buffer_from_hex h)))"
    using decodeString_bytes [OF assms(1)] by blast
qed

theorem single_string_decoders_witness:
  "decode_tokenURI
     (''0x'' @ ''0000000000000000000000000000000000000000000000000000000000000020''
            @ ''0000000000000000000000000000000000000000000000000000000000000002''
            @ ''2041000000000000000000000000000000000000000000000000000000000000'') = '' A'' \<and>
   decode_name
     (''0x'' @ ''0000000000000000000000000000000000000000000000000000000000000020''
            @ ''0000000000000000000000000000000000000000000000000000000000000002''
            @ ''2041000000000000000000000000000000000000000000000000000000000000'') = '' A'' \<and>
   decodeString
     (''0x'' @ ''0000000000000000000000000000000000000000000000000000000000000020''
            @ ''0000000000000000000000000000000000000000000000000000000000000002''
            @ ''2041000000000000000000000000000000000000000000000000000000000000'')
     = [CHR 0x02, CHR '' '', CHR ''A'']"
proof -
  let ?h = "''0000000000000000000000000000000000000000000000000000000000000020''
            @ ''0000000000000000000000000000000000000000000000000000000000000002''
            @ ''2041000000000000000000000000000000000000000000000000000000000000''"
  have hex: "list_all (is_digit 16) ?h" by (simp add: is_digit_def digit_val_def)
  have long: "128 \<le> length ?h" by simp
  have js: "length ?h < 2 ^ 53" by simp
  have off: "parse_nat 16 (take 64 ?h) = Some 32 \<and> 2 * 32 + 64 \<le> length ?h \<and>
             parse_nat 16 (take 64 (drop (2 * 32) ?h)) = Some 2 \<and>
             2 * 32 + 64 + 2 * 2 \<le> length ?h \<and>
             list_all (\<lambda>b. b < 128) (Buffer_from_hex (take (2 * 2) (drop (2 * 32 + 64) ?h)))"
    by (simp add: parse_nat_def digit_val_def)
  have n: "parse_nat 16 (take 64 (drop 64 ?h)) = Some 2 \<and> 128 + 2 * 2 \<le> length ?h \<and>
           list_all (\<lambda>b. b < 128) (Buffer_from_hex (take (2 * 2) (drop 128 ?h)))"
    by (simp add: parse_nat_def digit_val_def)
  have ev: "even (length ?h)" by simp
  have payload: "map char_of (Buffer_from_hex (take (2 * 2) (drop (2 * 32 + 64) ?h))) = '' A''"
    "remove_nulls (map char_of (Buffer_from_hex (take (2 * 2) (drop 128 ?h)))) = '' A''"
    by (simp_all add: remove_nulls_def digit_val_def char_of_def bit_iff_odd)
  have bytes: "trim (map char_of (filter (\<lambda>b. 0 < b \<and> b < 128) (Buffer_from_hex ?h)))
                 = [CHR 0x02, CHR '' '', CHR ''A'']"
    by (simp add: trim_def is_space_def digit_val_def char_of_def bit_iff_odd)
  note decoders = single_string_decoders [OF hex long js, of 32 2 2]
  from decoders off
  have a: "decode_tokenURI (''0x'' @ ?h)
             = map char_of (Buffer_from_hex (take (2 * 2) (drop (2 * 32 + 64) ?h)))"
    by blast
  from decoders n
  have b: "decode_name (''0x'' @ ?h)
             = remove_nulls (map char_of (Buffer_from_hex (take (2 * 2) (drop 128 ?h))))"
    by blast
  from decoders ev
  have c: "decodeString (''0x'' @ ?h)
             = trim (map char_of (filter (\<lambda>b. 0 < b \<and> b < 128) (Buffer_from_hex ?h)))"
    by blast
  show ?thesis
    by (simp only: a b c payload bytes simp_thms)
qed

text \<open>
  C9. \<open>decodeAddress\<close> gives the zero address for the empty text and for \<^verbatim>\<open>0x\<close>, and
  for any other word, with or without the prefix, \<^verbatim>\<open>0x\<close> and the lower-cased last 40
  characters of its digits (all of them when there are fewer).
\<close>

theorem decodeAddress_last_40:
  "decodeAddress [] = ''0x0000000000000000000000000000000000000000'' \<and>
   decodeAddress ''0x'' = ''0x0000000000000000000000000000000000000000'' \<and>
   (w \<noteq> [] \<longrightarrow> decodeAddress (''0x'' @ w) = ''0x'' @ toLowerCase (drop (length w - 40) w)) \<and>
   (w \<noteq> [] \<and> list_all (is_digit 16) w \<longrightarrow>
      decodeAddress w = ''0x'' @ toLowerCase (drop (length w - 40) w))"
proof -
  have a: "decodeAddress (''0x'' @ w) = ''0x'' @ toLowerCase (drop (length w - 40) w)" if "w \<noteq> []"
    using that slice_from_negative [of 40 w]
    by (simp add: decodeAddress_def replace_first_0x_prefix del: replace_first.simps)
  have b: "decodeAddress w = ''0x'' @ toLowerCase (drop (length w - 40) w)"
    if "w \<noteq> []" "list_all (is_digit 16) w"
  proof -
    have "CHR ''x'' \<notin> set w" using that(2) by (rule x_not_hex)
    then have "replace_first ''0x'' [] w = w" by (intro replace_first_absent [of "CHR ''x''"]) simp_all
    moreover have "w \<noteq> ''0x''" using \<open>CHR ''x'' \<notin> set w\<close> by auto
    ultimately show ?thesis
      using that(1) slice_from_negative [of 40 w] by (simp add: decodeAddress_def)
  qed
  show ?thesis using a b by (simp add: decodeAddress_def)
qed

theorem decodeAddress_last_40_witness:
  "decodeAddress (''0x'' @ ''0000000000000000000000005C7F8A570d578ED84E63fdFA7b1eE72dEae1AE23'')
     = ''0x5c7f8a570d578ed84e63fdfa7b1ee72deae1ae23'' \<and>
   decodeAddress ''00000000000000000000000000000000000000AB'' = ''0x00000000000000000000000000000000000000ab''"
  using decodeAddress_last_40 [of "''0000000000000000000000005C7F8A570d578ED84E63fdFA7b1eE72dEae1AE23''"]
    decodeAddress_last_40 [of "''00000000000000000000000000000000000000AB''"]
  by (simp add: toLowerCase_def to_lower_def is_digit_def digit_val_def)

text \<open>
  C10. \<open>formatBlockNumber\<close> returns the three block tags and every text that begins with
  \<^verbatim>\<open>0x\<close> unchanged; every other input is converted: the result is that of \<^verbatim>\<open>BigInt\<close> when
  it throws, and otherwise \<^verbatim>\<open>0x\<close> followed by the hexadecimal text of the BigInt value (hex
  digits for a non-negative value). So a result is either the unchanged tag or
  \<^verbatim>\<open>0x\<close>-text, or such a conversion, and applying the function to its own result changes
  nothing.
\<close>

theorem formatBlockNumber_idempotent:
  "(s = ''latest'' \<or> s = ''earliest'' \<or> s = ''pending'' \<or> startsWith s ''0x''
      \<longrightarrow> formatBlockNumber (JString s) = Inr s) \<and>
   ((\<forall>t. x = JString t \<longrightarrow>
          \<not> (t = ''latest'' \<or> t = ''earliest'' \<or> t = ''pending'' \<or> startsWith t ''0x''))
      \<longrightarrow> formatBlockNumber x
            = (case BigInt x of
                 Inl e \<Rightarrow> Inl e
               | Inr v \<Rightarrow> Inr (''0x'' @ BigInt_toString 16 v))) \<and>
   (formatBlockNumber x = Inr y \<longrightarrow>
      (x = JString y \<and>
         (y = ''latest'' \<or> y = ''earliest'' \<or> y = ''pending'' \<or> startsWith y ''0x'')) \<or>
      (\<exists>v. BigInt x = Inr v \<and> y = ''0x'' @ BigInt_toString 16 v \<and>
            (0 \<le> v \<longrightarrow> list_all (is_digit 16) (BigInt_toString 16 v)))) \<and>
   (formatBlockNumber x = Inr y \<longrightarrow> formatBlockNumber (JString y) = Inr y)"
proof (intro conjI impI)
  assume "s = ''latest'' \<or> s = ''earliest'' \<or> s = ''pending'' \<or> startsWith s ''0x''"
  then show "formatBlockNumber (JString s) = Inr s" by (rule formatBlockNumber_unchanged)
next
  assume "\<forall>t. x = JString t \<longrightarrow>
            \<not> (t = ''latest'' \<or> t = ''earliest'' \<or> t = ''pending'' \<or> startsWith t ''0x'')"
  then have "formatBlockNumber x = decimalToHex x" by (rule formatBlockNumber_converted)
  then show "formatBlockNumber x
               = (case BigInt x of
                    Inl e \<Rightarrow> Inl e
                  | Inr v \<Rightarrow> Inr (''0x'' @ BigInt_toString 16 v))"
    by (simp only: decimalToHex_def)
next
  assume f: "formatBlockNumber x = Inr y"
  show "(x = JString y \<and>
           (y = ''latest'' \<or> y = ''earliest'' \<or> y = ''pending'' \<or> startsWith y ''0x'')) \<or>
        (\<exists>v. BigInt x = Inr v \<and> y = ''0x'' @ BigInt_toString 16 v \<and>
              (0 \<le> v \<longrightarrow> list_all (is_digit 16) (BigInt_toString 16 v)))"
  proof (cases "\<forall>t. x = JString t \<longrightarrow>
            \<not> (t = ''latest'' \<or> t = ''earliest'' \<or> t = ''pending'' \<or> startsWith t ''0x'')")
    case True
    then have "formatBlockNumber x = decimalToHex x" by (rule formatBlockNumber_converted)
    with f have "decimalToHex x = Inr y" by simp
    then show ?thesis using decimalToHex_Inr by blast
  next
    case False
    then obtain t where t: "x = JString t"
        "t = ''latest'' \<or> t = ''earliest'' \<or> t = ''pending'' \<or> startsWith t ''0x''"
      by blast
    then have "formatBlockNumber (JString t) = Inr t" by (intro formatBlockNumber_unchanged)
    with f t(1) have "t = y" by simp
    with t show ?thesis by blast
  qed
next
  assume f: "formatBlockNumber x = Inr y"
  show "formatBlockNumber (JString y) = Inr y"
  proof (cases "x = JString y")
    case True
    with f show ?thesis by simp
  next
    case False
    with f have "decimalToHex x = Inr y" by (rule formatBlockNumber_other)
    then have "startsWith y ''0x''" using decimalToHex_Inr startsWith_0x by blast
    then show ?thesis using formatBlockNumber_unchanged by blast
  qed
qed

theorem formatBlockNumber_idempotent_witness:
  "formatBlockNumber (JString ''latest'') = Inr ''latest'' \<and>
   formatBlockNumber (JString ''255'') = Inr ''0xff'' \<and>
   formatBlockNumber (JString ''0xff'') = Inr ''0xff''"
proof -
  note format = formatBlockNumber_idempotent [of "''latest''" "JString ''255''" "''0xff''"]
  have other: "\<forall>t. JString ''255'' = JString t \<longrightarrow>
            \<not> (t = ''latest'' \<or> t = ''earliest'' \<or> t = ''pending'' \<or> startsWith t ''0x'')"
    by (simp add: startsWith_def)
  have converted: "(case BigInt (JString ''255'') of
                  Inl e \<Rightarrow> Inl e
                | Inr v \<Rightarrow> Inr (''0x'' @ BigInt_toString 16 v)) = Inr ''0xff''"
    by (simp add: js_eval)
  from format have a: "formatBlockNumber (JString ''latest'') = Inr ''latest''" by blast
  from format other
  have "formatBlockNumber (JString ''255'')
          = (case BigInt (JString ''255'') of
               Inl e \<Rightarrow> Inl e
             | Inr v \<Rightarrow> Inr (''0x'' @ BigInt_toString 16 v))"
    by blast
  then have b: "formatBlockNumber (JString ''255'') = Inr ''0xff''" by (simp only: converted)
  with format have c: "formatBlockNumber (JString ''0xff'') = Inr ''0xff''" by blast
  from a b c show ?thesis by (simp only: simp_thms)
qed

end
